theory Spec2Isabelle
  imports Complex_Main
begin

section \<open>The runtime environment\<close>

text \<open>
  The simulator and the admin route are TypeScript. Their numbers are modelled as
  real numbers (the rounding of IEEE doubles, NaN and the infinities are not modelled),
  and a valid \<^verbatim>\<open>Date\<close> as its time value, an integer count of milliseconds
  (ECMAScript's limit of 8.64e15 ms on a time value is not modelled).
\<close>

text \<open>
  A \<^verbatim>\<open>Date\<close> object that need not be valid: the time value, or Invalid Date (what
  \<^verbatim>\<open>new Date(s)\<close> gives for a string it cannot parse). Comparing with an invalid
  date is false, as every comparison with NaN is.
\<close>

datatype jsdate = DateValue int | InvalidDate

fun date_after :: "int \<Rightarrow> jsdate \<Rightarrow> bool" where
  "date_after now (DateValue t) = (now > t)"
| "date_after now InvalidDate = False"

text \<open>
  \<^verbatim>\<open>TelemetryData\<close>. The fields \<^verbatim>\<open>lat\<close> and \<^verbatim>\<open>lng\<close> carry the suffix
  \<open>_t\<close>; \<open>status\<close> is \<open>None\<close> when the code stores \<^verbatim>\<open>undefined\<close>.
\<close>

record TelemetryData =
  droneId :: string
  timestamp :: int
  battery :: real
  temperature :: real
  humidity :: real
  speed :: real
  altitude :: real
  lat_t :: real
  lng_t :: real
  status :: "string option"

text \<open>
  Everything the code reads from outside, and the persistence layer it writes to, is a
  field of \<open>world\<close>: the results of successive calls of \<^verbatim>\<open>Math.random()\<close>,
  the successive readings of the system clock (\<^verbatim>\<open>new Date()\<close>,
  \<^verbatim>\<open>Date.now()\<close>), the local-time view of a time value in the host's time zone
  (\<^verbatim>\<open>getHours\<close>, \<^verbatim>\<open>getDay\<close>), whether each successive call of the
  persistence layer succeeds, the telemetry collection (the batches inserted so far, in
  order), and the date the host parses from the decimal digits of a time value followed
  by a string (\<^verbatim>\<open>new Date(t + s)\<close> for a string \<^verbatim>\<open>s\<close>). A call consumes the
  head of its stream and returns the world with the stream advanced.
\<close>

record world =
  randoms :: "nat \<Rightarrow> real"
  clock :: "nat \<Rightarrow> int"
  getHours :: "int \<Rightarrow> int"
  getDay :: "int \<Rightarrow> int"
  dbUp :: "nat \<Rightarrow> bool"
  collection :: "TelemetryData list list"
  dateOfConcat :: "int \<Rightarrow> string \<Rightarrow> jsdate"

definition Math_random :: "world \<Rightarrow> real \<times> world" where
  "Math_random w = (randoms w 0, w\<lparr>randoms := (\<lambda>n. randoms w (Suc n))\<rparr>)"

definition new_Date :: "world \<Rightarrow> int \<times> world" where
  "new_Date w = (clock w 0, w\<lparr>clock := (\<lambda>n. clock w (Suc n))\<rparr>)"

definition db_call :: "world \<Rightarrow> bool \<times> world" where
  "db_call w = (dbUp w 0, w\<lparr>dbUp := (\<lambda>n. dbUp w (Suc n))\<rparr>)"

text \<open>\<^verbatim>\<open>Math.random()\<close> returns a number in \<open>[0, 1)\<close>.\<close>

definition random_ok :: "world \<Rightarrow> bool" where
  "random_ok w = (\<forall>n. 0 \<le> randoms w n \<and> randoms w n < 1)"

text \<open>\<^verbatim>\<open>getHours\<close> returns an hour of the day, \<^verbatim>\<open>getDay\<close> a day of the week.\<close>

definition localtime_ok :: "world \<Rightarrow> bool" where
  "localtime_ok w =
     (\<forall>t. 0 \<le> getHours w t \<and> getHours w t \<le> 23 \<and> 0 \<le> getDay w t \<and> getDay w t \<le> 6)"

section \<open>The override registry\<close>

record LatLng =
  lat :: real
  lng :: real

text \<open>The entries of \<^verbatim>\<open>droneStates\<close> (const.ts).\<close>

record OverrideEntry =
  status_o :: string
  isOnline :: bool
  battery_o :: "real option"
  lastUpdate :: int
  manualOverride :: bool
  overrideExpiry :: "jsdate option"
  lastPosition :: "LatLng option"

type_synonym registry = "string \<rightharpoonup> OverrideEntry"

text \<open>
  \<^verbatim>\<open>isDroneUnderManualOverride\<close> of the simulator module. Its \<^verbatim>\<open>droneStates\<close>
  is the reference the module holds, \<^verbatim>\<open>null\<close> (\<open>None\<close>) until it is loaded. The
  clock is read only after the two early returns.
\<close>

definition isDroneUnderManualOverride ::
  "world \<Rightarrow> registry option \<Rightarrow> string \<Rightarrow> bool \<times> world \<times> registry option" where
  "isDroneUnderManualOverride w droneStates droneId' =
     (case droneStates of
        None \<Rightarrow> (False, w, droneStates)
      | Some m \<Rightarrow>
          (case m droneId' of
             None \<Rightarrow> (False, w, droneStates)
           | Some state \<Rightarrow>
               if \<not> manualOverride state then (False, w, droneStates)
               else
                 (let (now, w') = new_Date w in
                  case overrideExpiry state of
                    None \<Rightarrow> (True, w', droneStates)
                  | Some expiry \<Rightarrow>
                      if date_after now expiry
                      then (False, w',
                            Some (m(droneId' \<mapsto>
                              state\<lparr>manualOverride := False, overrideExpiry := None\<rparr>)))
                      else (True, w', droneStates))))"

text \<open>
  \<^verbatim>\<open>isDroneUnderManualOverride\<close> of the admin route (route.ts): the same check on
  the route's own map, which is never null.
\<close>

definition route_isDroneUnderManualOverride ::
  "world \<Rightarrow> registry \<Rightarrow> string \<Rightarrow> bool \<times> world \<times> registry" where
  "route_isDroneUnderManualOverride w droneStates droneId' =
     (case droneStates droneId' of
        None \<Rightarrow> (False, w, droneStates)
      | Some state \<Rightarrow>
          if \<not> manualOverride state then (False, w, droneStates)
          else
            (let (now, w') = new_Date w in
             case overrideExpiry state of
               None \<Rightarrow> (True, w', droneStates)
             | Some expiry \<Rightarrow>
                 if date_after now expiry
                 then (False, w',
                       droneStates(droneId' \<mapsto>
                         state\<lparr>manualOverride := False, overrideExpiry := None\<rparr>))
                 else (True, w', droneStates)))"

text \<open>
  The override check called \<open>n\<close> times in a row on the same drone, with nothing else
  writing the registry in between: the answer of each call and the registry it leaves.
\<close>

fun check_repeatedly ::
  "nat \<Rightarrow> world \<Rightarrow> registry option \<Rightarrow> string \<Rightarrow> (bool \<times> registry option) list" where
  "check_repeatedly 0 w droneStates droneId' = []"
| "check_repeatedly (Suc n) w droneStates droneId' =
     (case isDroneUnderManualOverride w droneStates droneId' of
        (b, w', droneStates') \<Rightarrow> (b, droneStates') # check_repeatedly n w' droneStates' droneId')"

section \<open>Drone profiles\<close>

datatype MissionPhase = idle | preparing | flying | delivering | returning

record Destination = LatLng +
  name :: string

text \<open>
  \<^verbatim>\<open>DroneProfile\<close>. The fields \<^verbatim>\<open>id\<close>, \<^verbatim>\<open>name\<close> and
  \<^verbatim>\<open>manualOverride\<close> carry the suffix \<open>_p\<close>. The code mutates a profile in
  place. Its \<^verbatim>\<open>currentLocation\<close> is an object of its own (a copy of the base
  location, at construction and on return), and the destination objects, which
  profiles share, are never written: no write to one profile shows in another, and a
  profile is a value.
\<close>

record DroneProfile =
  id_p :: string
  name_p :: string
  baseLocation :: LatLng
  batteryDecayRate :: real
  maxSpeed :: real
  operatingAltitude :: real
  currentBattery :: real
  currentLocation :: LatLng
  missionPhase :: MissionPhase
  missionStartTime :: "int option"
  destination :: "Destination option"
  manualOverride_p :: "bool option"

definition destinations :: "Destination list" where
  "destinations =
     [\<lparr>lat = -1.2500, lng = 36.7833, name = ''Karen Hospital''\<rparr>,
      \<lparr>lat = -1.3500, lng = 36.9167, name = ''Machakos Hospital''\<rparr>,
      \<lparr>lat = -1.1667, lng = 36.8000, name = ''Kiambu Medical Center''\<rparr>,
      \<lparr>lat = -1.4000, lng = 36.9500, name = ''Athi River Clinic''\<rparr>,
      \<lparr>lat = -1.2000, lng = 36.7500, name = ''Limuru Health Center''\<rparr>]"

text \<open>Reading an array at an index: \<^verbatim>\<open>undefined\<close> (\<open>None\<close>) out of range.\<close>

definition array_at :: "'a list \<Rightarrow> int \<Rightarrow> 'a option" where
  "array_at xs i = (if 0 \<le> i \<and> i < int (length xs) then Some (xs ! nat i) else None)"

text \<open>
  \<^verbatim>\<open>Map.set\<close> on a map kept as the list of its entries in insertion order: an
  existing key keeps its place, a new key goes to the end.
\<close>

fun map_set :: "'k \<Rightarrow> 'v \<Rightarrow> ('k \<times> 'v) list \<Rightarrow> ('k \<times> 'v) list" where
  "map_set k v [] = [(k, v)]"
| "map_set k v ((k', v') # kvs) =
     (if k = k' then (k, v) # kvs else (k', v') # map_set k v kvs)"

text \<open>
  The static configuration of the four drones: id, name, base location, battery decay
  rate, maximum speed, operating altitude.
\<close>

definition initialProfiles :: "(string \<times> string \<times> LatLng \<times> real \<times> real \<times> real) list" where
  "initialProfiles =
     [(''A1'', ''Drone A1'', \<lparr>lat = -1.2921, lng = 36.8219\<rparr>, 0.8, 65, 150),
      (''A2'', ''Drone A2'', \<lparr>lat = -1.3032, lng = 36.8356\<rparr>, 0.7, 70, 180),
      (''B1'', ''Drone B1'', \<lparr>lat = -1.2745, lng = 36.8098\<rparr>, 0.9, 60, 120),
      (''B2'', ''Drone B2'', \<lparr>lat = -1.3167, lng = 36.8833\<rparr>, 0.6, 75, 200)]"

fun newProfile ::
  "string \<times> string \<times> LatLng \<times> real \<times> real \<times> real \<Rightarrow> real \<Rightarrow> DroneProfile" where
  "newProfile (i, n, base, decay, vmax, alt) r =
     \<lparr> id_p = i, name_p = n, baseLocation = base, batteryDecayRate = decay,
       maxSpeed = vmax, operatingAltitude = alt,
       currentBattery = 85 + r * 15,
       currentLocation = base,
       missionPhase = idle,
       missionStartTime = None, destination = None, manualOverride_p = None \<rparr>"

fun initializeProfiles_forEach ::
  "world \<Rightarrow> (string \<times> string \<times> LatLng \<times> real \<times> real \<times> real) list \<Rightarrow>
   (string \<times> DroneProfile) list \<Rightarrow> (string \<times> DroneProfile) list \<times> world" where
  "initializeProfiles_forEach w [] profiles = (profiles, w)"
| "initializeProfiles_forEach w (c # cs) profiles =
     (let (r, w') = Math_random w in
      initializeProfiles_forEach w' cs (map_set (fst c) (newProfile c r) profiles))"

definition initializeProfiles :: "world \<Rightarrow> (string \<times> DroneProfile) list \<times> world" where
  "initializeProfiles w = initializeProfiles_forEach w initialProfiles []"

section \<open>The mission state machine\<close>

text \<open>
  \<^verbatim>\<open>calculateDistance\<close> and \<^verbatim>\<open>moveTowardsDestination\<close> in exact arithmetic.
  The code computes the differences, the square root, the quotient and the products
  in IEEE doubles, each rounded, so the position and the distance of the code agree
  with these only up to that rounding. What is proved below of a step uses their
  bounds (the new position lies between the old one and the target, coordinate by
  coordinate) and never an exact distance.
\<close>

definition calculateDistance :: "'a LatLng_scheme \<Rightarrow> 'b LatLng_scheme \<Rightarrow> real" where
  "calculateDistance point1 point2 =
     (let latDiff = lat point2 - lat point1;
          lngDiff = lng point2 - lng point1
      in sqrt (latDiff * latDiff + lngDiff * lngDiff))"

definition degreeStep :: "DroneProfile \<Rightarrow> real" where
  "degreeStep profile =
     (let speed = maxSpeed profile;
          timeStep = 20 / 3600;
          distanceStep = speed * timeStep
      in distanceStep / 111)"

definition moveTowardsDestination :: "DroneProfile \<Rightarrow> 'a LatLng_scheme \<Rightarrow> DroneProfile" where
  "moveTowardsDestination profile dest =
     (let latDiff = lat dest - lat (currentLocation profile);
          lngDiff = lng dest - lng (currentLocation profile);
          totalDistance = sqrt (latDiff * latDiff + lngDiff * lngDiff)
      in if totalDistance > 0
         then (let stepRatio = min (degreeStep profile / totalDistance) 1
               in profile\<lparr>currentLocation :=
                    \<lparr>lat = lat (currentLocation profile) + latDiff * stepRatio,
                     lng = lng (currentLocation profile) + lngDiff * stepRatio\<rparr>\<rparr>)
         else profile)"

text \<open>
  The branches of the \<^verbatim>\<open>switch\<close> of \<^verbatim>\<open>updateDroneState\<close>, one definition
  per mission phase. \<^verbatim>\<open>&&\<close> and \<^verbatim>\<open>||\<close> evaluate their right operand, and so
  draw a random number, only when the left one does not decide.
\<close>

definition updateDroneState_idle :: "world \<Rightarrow> int \<Rightarrow> DroneProfile \<Rightarrow> DroneProfile \<times> world" where
  "updateDroneState_idle w now profile =
     (let isBusinessHours = (getHours w now \<ge> 8 \<and> getHours w now \<le> 18) in
      if isBusinessHours
      then (let (r, w1) = Math_random w in
            if r < 0.10 \<and> currentBattery profile > 50
            then (let (r2, w2) = Math_random w1 in
                  (profile\<lparr>missionPhase := preparing,
                           missionStartTime := Some now,
                           destination := array_at destinations
                             \<lfloor>r2 * real (length destinations)\<rfloor>\<rparr>, w2))
            else (profile\<lparr>currentBattery := min 100 (currentBattery profile + 0.3)\<rparr>, w1))
      else (profile\<lparr>currentBattery := min 100 (currentBattery profile + 0.3)\<rparr>, w))"

definition updateDroneState_preparing :: "world \<Rightarrow> DroneProfile \<Rightarrow> DroneProfile \<times> world" where
  "updateDroneState_preparing w profile =
     (let (r, w1) = Math_random w in
      (if r < 0.5 then profile\<lparr>missionPhase := flying\<rparr> else profile, w1))"

definition updateDroneState_flying :: "world \<Rightarrow> DroneProfile \<Rightarrow> DroneProfile \<times> world" where
  "updateDroneState_flying w profile =
     (case destination profile of
        None \<Rightarrow> (profile, w)
      | Some dest \<Rightarrow>
          (let p1 = moveTowardsDestination profile dest;
               p2 = p1\<lparr>currentBattery := currentBattery p1 - batteryDecayRate p1 * 0.8\<rparr>;
               distanceToDestination = calculateDistance (currentLocation p2) dest
           in if distanceToDestination < 0.005
              then (p2\<lparr>missionPhase := delivering\<rparr>, w)
              else (let (r, w1) = Math_random w in
                    (if r < 0.08 then p2\<lparr>missionPhase := delivering\<rparr> else p2, w1))))"

definition updateDroneState_delivering :: "world \<Rightarrow> DroneProfile \<Rightarrow> DroneProfile \<times> world" where
  "updateDroneState_delivering w profile =
     (let p1 = profile\<lparr>currentBattery := currentBattery profile - 0.2\<rparr>;
          (r, w1) = Math_random w
      in (if r < 0.3 then p1\<lparr>missionPhase := returning\<rparr> else p1, w1))"

definition arriveAtBase :: "DroneProfile \<Rightarrow> DroneProfile" where
  "arriveAtBase profile =
     profile\<lparr>missionPhase := idle,
             currentLocation := baseLocation profile,
             destination := None,
             missionStartTime := None\<rparr>"

definition updateDroneState_returning :: "world \<Rightarrow> DroneProfile \<Rightarrow> DroneProfile \<times> world" where
  "updateDroneState_returning w profile =
     (let p1 = moveTowardsDestination profile (baseLocation profile);
          p2 = p1\<lparr>currentBattery := currentBattery p1 - batteryDecayRate p1 * 0.6\<rparr>;
          distanceToBase = calculateDistance (currentLocation p2) (baseLocation p2)
      in if distanceToBase < 0.002
         then (arriveAtBase p2, w)
         else (let (r, w1) = Math_random w in
               (if r < 0.12 then arriveAtBase p2 else p2, w1)))"

definition updateDroneState :: "world \<Rightarrow> DroneProfile \<Rightarrow> DroneProfile \<times> world" where
  "updateDroneState w0 profile =
     (let (now, w) = new_Date w0;
          (profile', w') =
            (case missionPhase profile of
               idle \<Rightarrow> updateDroneState_idle w now profile
             | preparing \<Rightarrow> updateDroneState_preparing w profile
             | flying \<Rightarrow> updateDroneState_flying w profile
             | delivering \<Rightarrow> updateDroneState_delivering w profile
             | returning \<Rightarrow> updateDroneState_returning w profile)
      in (profile'\<lparr>currentBattery := max 15 (currentBattery profile')\<rparr>, w'))"

text \<open>The last assignment of \<^verbatim>\<open>updateDroneState\<close>, the battery floor, on its own.\<close>

definition floor15 :: "DroneProfile \<Rightarrow> DroneProfile" where
  "floor15 q = q\<lparr>currentBattery := max 15 (currentBattery q)\<rparr>"

text \<open>
  A rectangle of latitudes and longitudes that holds the four bases and the five
  destinations.
\<close>

definition in_region :: "'a LatLng_scheme \<Rightarrow> bool" where
  "in_region q = (- 2 \<le> lat q \<and> lat q \<le> - 1 \<and> 36 \<le> lng q \<and> lng q \<le> 37)"

text \<open>
  The profiles the simulator can hold. \<open>configured\<close>: the static fields are those of
  one of the four configured drones (no code writes them after construction).
  \<open>reachable\<close>: a profile as \<^verbatim>\<open>initializeProfiles\<close> constructs it, or the result of
  \<^verbatim>\<open>updateDroneState\<close> on a reachable profile; nothing else writes a profile.
\<close>

definition configured :: "DroneProfile \<Rightarrow> bool" where
  "configured p =
     ((id_p p, name_p p, baseLocation p, batteryDecayRate p, maxSpeed p, operatingAltitude p)
        \<in> set initialProfiles)"

inductive reachable :: "DroneProfile \<Rightarrow> bool" where
  reachable_init:
    "c \<in> set initialProfiles \<Longrightarrow> 0 \<le> r \<Longrightarrow> r < 1 \<Longrightarrow> reachable (newProfile c r)"
| reachable_step:
    "reachable p \<Longrightarrow> random_ok w \<Longrightarrow> reachable (fst (updateDroneState w p))"

section \<open>The telemetry synthesizer\<close>

text \<open>\<^verbatim>\<open>Math.round\<close>: the nearest integer, a half rounded up.\<close>

definition Math_round :: "real \<Rightarrow> real" where
  "Math_round x = of_int \<lfloor>x + 1 / 2\<rfloor>"

text \<open>
  The \<^verbatim>\<open>switch\<close> of \<^verbatim>\<open>generateCurrentTelemetry\<close>: the status, speed, altitude
  and temperature of a mission phase.
\<close>

definition phaseReadings ::
  "world \<Rightarrow> DroneProfile \<Rightarrow> (string \<times> real \<times> real \<times> real) \<times> world" where
  "phaseReadings w profile =
     (case missionPhase profile of
        idle \<Rightarrow>
          (let (r, w1) = Math_random w in ((''Standby'', 0, 0, 25 + r * 3), w1))
      | preparing \<Rightarrow>
          (let (r, w1) = Math_random w in ((''Pre-Flight'', 0, 0, 28 + r * 3), w1))
      | flying \<Rightarrow>
          (let (r1, w1) = Math_random w;
               (r2, w2) = Math_random w1;
               (r3, w3) = Math_random w2
           in ((''In Flight'',
                maxSpeed profile * (0.8 + r1 * 0.2),
                operatingAltitude profile + r2 * 30 - 15,
                35 + r3 * 6), w3))
      | delivering \<Rightarrow>
          (let (r, w1) = Math_random w in ((''Delivered'', 0, 0, 32 + r * 4), w1))
      | returning \<Rightarrow>
          (let (r1, w1) = Math_random w;
               (r2, w2) = Math_random w1;
               (r3, w3) = Math_random w2
           in ((''Returning'',
                maxSpeed profile * (0.7 + r1 * 0.2),
                operatingAltitude profile + r2 * 25 - 10,
                34 + r3 * 5), w3)))"

definition generateCurrentTelemetry ::
  "world \<Rightarrow> DroneProfile \<Rightarrow> int \<Rightarrow> TelemetryData \<times> world" where
  "generateCurrentTelemetry w0 profile ts =
     (let (r0, w1) = Math_random w0;
          ((st, spd, alt, temp), w2) = phaseReadings w1 profile;
          timeOfDay = getHours w2 ts;
          tempAdjustment = sin (real_of_int (timeOfDay - 6) / 12 * pi) * 3;
          humidityBase = 65 - \<bar>real_of_int (timeOfDay - 14)\<bar> * 1.5;
          (rh, w3) = Math_random w2
      in (\<lparr> droneId = id_p profile,
            timestamp = ts,
            battery = Math_round (currentBattery profile * 10) / 10,
            temperature = Math_round ((temp + tempAdjustment) * 10) / 10,
            humidity = Math_round ((humidityBase + rh * 15) * 10) / 10,
            speed = Math_round (spd * 10) / 10,
            altitude = Math_round alt,
            lat_t = Math_round (lat (currentLocation profile) * 1000000) / 1000000,
            lng_t = Math_round (lng (currentLocation profile) * 1000000) / 1000000,
            status = Some st \<rparr>, w3))"

definition statusOptions :: "string list" where
  "statusOptions = [''Standby'', ''Active'', ''In Flight'', ''Delivered'', ''Returning'']"

text \<open>
  The two branches of \<^verbatim>\<open>generateHistoricalDataPoint\<close>: the reading of an active
  drone and the standby reading at the base. The random numbers are drawn in the order
  in which the code evaluates its calls of \<^verbatim>\<open>Math.random()\<close>.
\<close>

definition historicalActivePoint ::
  "world \<Rightarrow> DroneProfile \<Rightarrow> int \<Rightarrow> TelemetryData \<times> world" where
  "historicalActivePoint w1 profile ts =
     (let (missionProgress, w2) = Math_random w1;
          (rb, w3) = Math_random w2;
          batt = 90 - missionProgress * 40 + rb * 10;
          (rt, w4) = Math_random w3;
          temp = 32 + missionProgress * 8 + rt * 4;
          (rs, w5) = Math_random w4;
          spd = maxSpeed profile * (0.6 + rs * 0.4);
          (rlat, w6) = Math_random w5;
          latOffset = (rlat - 0.5) * 0.08;
          (rlng, w7) = Math_random w6;
          lngOffset = (rlng - 0.5) * 0.08;
          (rh, w8) = Math_random w7;
          (ralt, w9) = Math_random w8;
          (rst, w10) = Math_random w9
      in (\<lparr> droneId = id_p profile,
            timestamp = ts,
            battery = Math_round (max 20 batt * 10) / 10,
            temperature = Math_round (temp * 10) / 10,
            humidity = Math_round ((55 + rh * 25) * 10) / 10,
            speed = Math_round (spd * 10) / 10,
            altitude = operatingAltitude profile + ralt * 40 - 20,
            lat_t = Math_round ((lat (baseLocation profile) + latOffset) * 1000000) / 1000000,
            lng_t = Math_round ((lng (baseLocation profile) + lngOffset) * 1000000) / 1000000,
            status = array_at statusOptions \<lfloor>rst * real (length statusOptions)\<rfloor> \<rparr>,
          w10))"

definition historicalStandbyPoint ::
  "world \<Rightarrow> DroneProfile \<Rightarrow> int \<Rightarrow> TelemetryData \<times> world" where
  "historicalStandbyPoint w1 profile ts =
     (let (rb, w2) = Math_random w1;
          (rt, w3) = Math_random w2;
          (rh, w4) = Math_random w3
      in (\<lparr> droneId = id_p profile,
            timestamp = ts,
            battery = 85 + rb * 15,
            temperature = 26 + rt * 4,
            humidity = 60 + rh * 20,
            speed = 0,
            altitude = 0,
            lat_t = lat (baseLocation profile),
            lng_t = lng (baseLocation profile),
            status = Some ''Standby'' \<rparr>, w4))"

definition generateHistoricalDataPoint ::
  "world \<Rightarrow> DroneProfile \<Rightarrow> int \<Rightarrow> TelemetryData \<times> world" where
  "generateHistoricalDataPoint w0 profile ts =
     (let isBusinessHours = (getHours w0 ts \<ge> 8 \<and> getHours w0 ts \<le> 18);
          isWeekend = (getDay w0 ts = 0 \<or> getDay w0 ts = 6);
          activityLevel = (if isBusinessHours \<and> \<not> isWeekend then 0.6 else 0.2 :: real);
          (ra, w1) = Math_random w0;
          isActive = (ra < activityLevel)
      in if isActive then historicalActivePoint w1 profile ts
         else historicalStandbyPoint w1 profile ts)"

text \<open>
  The domains of a telemetry record's readings, and what it is for a number to be
  rounded to \<open>k\<close> decimal places.
\<close>

definition in_domain :: "TelemetryData \<Rightarrow> bool" where
  "in_domain t =
     (0 \<le> battery t \<and> battery t \<le> 100 \<and> 0 \<le> humidity t \<and> humidity t \<le> 100 \<and>
      0 \<le> speed t \<and> 0 \<le> altitude t \<and>
      -90 \<le> lat_t t \<and> lat_t t \<le> 90 \<and> -180 \<le> lng_t t \<and> lng_t t \<le> 180)"

definition rounded_to :: "nat \<Rightarrow> real \<Rightarrow> bool" where
  "rounded_to k x = (of_int \<lfloor>x * 10 ^ k\<rfloor> = x * 10 ^ k)"

definition rounded_record :: "TelemetryData \<Rightarrow> bool" where
  "rounded_record t =
     (rounded_to 1 (battery t) \<and> rounded_to 1 (temperature t) \<and> rounded_to 1 (humidity t) \<and>
      rounded_to 1 (speed t) \<and> rounded_to 0 (altitude t) \<and>
      rounded_to 6 (lat_t t) \<and> rounded_to 6 (lng_t t))"

section \<open>The simulation driver\<close>

text \<open>
  The persistence layer. A call that fails throws; the exception is the value
  \<open>Inl PersistenceError\<close>.
\<close>

datatype error = PersistenceError

definition countDocuments :: "world \<Rightarrow> (error + nat) \<times> world" where
  "countDocuments w =
     (let (ok, w') = db_call w in
      (if ok then Inr (length (concat (collection w'))) else Inl PersistenceError, w'))"

definition insertMany :: "world \<Rightarrow> TelemetryData list \<Rightarrow> (error + unit) \<times> world" where
  "insertMany w batch =
     (let (ok, w') = db_call w in
      if ok then (Inr (), w'\<lparr>collection := collection w' @ [batch]\<rparr>)
      else (Inl PersistenceError, w'))"

text \<open>
  The simulator object (\<^verbatim>\<open>profiles\<close> is a \<^verbatim>\<open>Map\<close>, kept as the list of its
  entries in insertion order) together with the module's reference to the override
  registry.
\<close>

record simulator =
  isRunning :: bool
  profiles :: "(string \<times> DroneProfile) list"
  droneStates :: "registry option"

text \<open>
  The \<^verbatim>\<open>for ... of this.profiles\<close> loop of \<^verbatim>\<open>generateAndSaveTelemetry\<close>. It
  returns the profiles as the loop leaves them, the records collected in
  \<^verbatim>\<open>telemetryData\<close>, the world and the registry.
\<close>

fun telemetry_forOf ::
  "world \<Rightarrow> registry option \<Rightarrow> int \<Rightarrow> (string \<times> DroneProfile) list \<Rightarrow>
   (string \<times> DroneProfile) list \<times> TelemetryData list \<times> world \<times> registry option" where
  "telemetry_forOf w reg now [] = ([], [], w, reg)"
| "telemetry_forOf w reg now ((droneId', profile) # rest) =
     (case isDroneUnderManualOverride w reg droneId' of
        (True, w1, reg1) \<Rightarrow>
          (case telemetry_forOf w1 reg1 now rest of
             (rest', telemetryData, w', reg') \<Rightarrow>
               ((droneId', profile) # rest', telemetryData, w', reg'))
      | (False, w1, reg1) \<Rightarrow>
          (let (profile', w2) = updateDroneState w1 profile;
               (data, w3) = generateCurrentTelemetry w2 profile' now
           in case telemetry_forOf w3 reg1 now rest of
                (rest', telemetryData, w', reg') \<Rightarrow>
                  ((droneId', profile') # rest', data # telemetryData, w', reg')))"

text \<open>
  One tick. An exception of \<^verbatim>\<open>insertMany\<close> is caught and logged: the tick ends
  with the profiles updated and nothing stored.
\<close>

definition generateAndSaveTelemetry :: "world \<Rightarrow> simulator \<Rightarrow> simulator \<times> world" where
  "generateAndSaveTelemetry w0 sim =
     (let (now, w1) = new_Date w0 in
      case telemetry_forOf w1 (droneStates sim) now (profiles sim) of
        (profiles', telemetryData, w2, reg') \<Rightarrow>
          (let sim' = sim\<lparr>profiles := profiles', droneStates := reg'\<rparr> in
           if length telemetryData > 0
           then (case insertMany w2 telemetryData of
                   (Inr u, w3) \<Rightarrow> (sim', w3)
                 | (Inl e, w3) \<Rightarrow> (sim', w3))
           else (sim', w2)))"

text \<open>
  \<^verbatim>\<open>new Date(v)\<close> for a number \<^verbatim>\<open>v\<close>: the time value is \<^verbatim>\<open>v\<close> truncated
  towards zero.
\<close>

definition new_Date_of :: "real \<Rightarrow> int" where
  "new_Date_of v = (if v \<ge> 0 then \<lfloor>v\<rfloor> else \<lceil>v\<rceil>)"

text \<open>The backfill: one historical point per profile at a timestamp.\<close>

fun historical_forEach ::
  "world \<Rightarrow> DroneProfile list \<Rightarrow> int \<Rightarrow> TelemetryData list \<times> world" where
  "historical_forEach w [] ts = ([], w)"
| "historical_forEach w (profile # rest) ts =
     (let (data, w1) = generateHistoricalDataPoint w profile ts;
          (more, w2) = historical_forEach w1 rest ts
      in (data # more, w2))"

text \<open>
  The loop \<^verbatim>\<open>for (let i = totalPoints; i >= 0; i--)\<close>, whose counter is a number,
  not necessarily whole.
\<close>

function historical_for ::
  "world \<Rightarrow> DroneProfile list \<Rightarrow> int \<Rightarrow> real \<Rightarrow> TelemetryData list \<Rightarrow>
   TelemetryData list \<times> world" where
  "historical_for w ps now i batchData =
     (if i \<ge> 0
      then (let intervalMinutes = 3;
                ts = new_Date_of (real_of_int now - i * intervalMinutes * 60000);
                (points, w') = historical_forEach w ps ts
            in historical_for w' ps now (i - 1) (batchData @ points))
      else (batchData, w))"
  by pat_completeness auto
termination
  by (relation "measure (\<lambda>(w, ps, now, i, batchData). nat (\<lfloor>i\<rfloor> + 1))") auto

text \<open>
  The loop \<^verbatim>\<open>for (let i = 0; i < batchData.length; i += batchSize)\<close>. An exception of
  \<^verbatim>\<open>insertMany\<close> ends it.
\<close>

function insert_batches ::
  "world \<Rightarrow> TelemetryData list \<Rightarrow> nat \<Rightarrow> (error + unit) \<times> world" where
  "insert_batches w batchData i =
     (let batchSize = 100 in
      if i < length batchData
      then (case insertMany w (take batchSize (drop i batchData)) of
              (Inl e, w') \<Rightarrow> (Inl e, w')
            | (Inr u, w') \<Rightarrow> insert_batches w' batchData (i + batchSize))
      else (Inr (), w))"
  by pat_completeness auto
termination
  by (relation "measure (\<lambda>(w, batchData, i). length batchData - i)") auto

definition generateHistoricalData ::
  "world \<Rightarrow> simulator \<Rightarrow> real \<Rightarrow> (error + unit) \<times> world" where
  "generateHistoricalData w0 sim hours =
     (let (now, w1) = new_Date w0;
          intervalMinutes = 3;
          totalPoints = (hours * 60) / intervalMinutes;
          (batchData, w2) = historical_for w1 (map snd (profiles sim)) now totalPoints []
      in insert_batches w2 batchData 0)"

text \<open>
  \<^verbatim>\<open>initializeDatabase\<close>: its \<^verbatim>\<open>try\<close> catches and logs every exception.
\<close>

definition initializeDatabase :: "world \<Rightarrow> simulator \<Rightarrow> world" where
  "initializeDatabase w sim =
     (case countDocuments w of
        (Inl e, w1) \<Rightarrow> w1
      | (Inr count, w1) \<Rightarrow>
          if count = 0 then snd (generateHistoricalData w1 sim 6) else w1)"

text \<open>
  The profiles of a simulator are keyed by their own identifiers, and a \<^verbatim>\<open>Map\<close> has
  each key once.
\<close>

definition profiles_ok :: "(string \<times> DroneProfile) list \<Rightarrow> bool" where
  "profiles_ok ps = (distinct (map fst ps) \<and> list_all (\<lambda>(k, p). id_p p = k) ps)"

section \<open>The admin route\<close>

text \<open>
  A field of the request body as \<^verbatim>\<open>request.json()\<close> gives it: absent
  (\<^verbatim>\<open>undefined\<close>), \<^verbatim>\<open>null\<close>, a boolean, a number, a string, or an array or
  object (kept as the string JavaScript converts it to). \<open>truthy\<close> is JavaScript's
  conversion to a boolean.
\<close>

datatype json = JAbsent | JNull | JBool bool | JNum real | JStr string | JCompound string

fun truthy :: "json \<Rightarrow> bool" where
  "truthy JAbsent = False"
| "truthy JNull = False"
| "truthy (JBool b) = b"
| "truthy (JNum x) = (x \<noteq> 0)"
| "truthy (JStr s) = (s \<noteq> [])"
| "truthy (JCompound s) = True"

text \<open>
  The body of a POST request. \<^verbatim>\<open>droneId\<close>, \<^verbatim>\<open>status\<close>, \<^verbatim>\<open>isOnline\<close> and
  \<^verbatim>\<open>battery\<close> (suffix \<open>_b\<close>) are taken at the types the handler uses them at, absent
  as \<open>None\<close>; a string is falsy when it is absent or empty. \<^verbatim>\<open>duration\<close> is any
  JSON value.
\<close>

record PostBody =
  droneId_b :: "string option"
  status_b :: "string option"
  isOnline_b :: "bool option"
  battery_b :: "real option"
  duration :: json

text \<open>\<^verbatim>\<open>duration || 5 * 60 * 1000\<close>.\<close>

definition overrideDuration :: "json \<Rightarrow> json" where
  "overrideDuration d = (if truthy d then d else JNum (5 * 60 * 1000))"

text \<open>
  \<^verbatim>\<open>new Date(Date.now() + overrideDuration)\<close>: \<^verbatim>\<open>+\<close> adds a number, a boolean as
  0 or 1 and \<^verbatim>\<open>null\<close> as 0, gives NaN for \<^verbatim>\<open>undefined\<close>, and concatenates with a
  string. The limit on a time value is not modelled: where a numeric duration takes the
  sum past 8.64e15 ms the code has Invalid Date, this function a \<open>DateValue\<close>.
\<close>

fun date_plus :: "world \<Rightarrow> int \<Rightarrow> json \<Rightarrow> jsdate" where
  "date_plus w now (JNum x) = DateValue (new_Date_of (real_of_int now + x))"
| "date_plus w now (JBool b) = DateValue (now + (if b then 1 else 0))"
| "date_plus w now JNull = DateValue now"
| "date_plus w now JAbsent = InvalidDate"
| "date_plus w now (JStr s) = dateOfConcat w now s"
| "date_plus w now (JCompound s) = dateOfConcat w now s"

text \<open>
  \<^verbatim>\<open>Telemetry.findOne({ droneId }).sort({ timestamp: -1 })\<close> on the records of the
  collection: the record of the drone with the greatest timestamp (of several with that
  timestamp, the one inserted first).
\<close>

definition findLatest :: "TelemetryData list \<Rightarrow> string \<Rightarrow> TelemetryData option" where
  "findLatest records k =
     foldl (\<lambda>best r.
        if droneId r = k \<and> (case best of None \<Rightarrow> True | Some b \<Rightarrow> timestamp b < timestamp r)
        then Some r else best) None records"

definition basePosition :: LatLng where
  "basePosition = \<lparr>lat = -1.2921, lng = 36.8219\<rparr>"

text \<open>
  \<^verbatim>\<open>generateRealisticTelemetry\<close>: the record of a manual status change. The parameters
  after the world are the drone's id, the status, and the \<^verbatim>\<open>battery\<close> and
  \<^verbatim>\<open>lastPosition\<close> of the context.
\<close>

definition generateRealisticTelemetry ::
  "world \<Rightarrow> string \<Rightarrow> string \<Rightarrow> real \<Rightarrow> LatLng \<Rightarrow> TelemetryData \<times> world" where
  "generateRealisticTelemetry w0 k st batt lastPos =
     (let (ts, w) = new_Date w0;
          telemetryData =
            \<lparr> droneId = k, timestamp = ts, battery = batt, temperature = 28, humidity = 65,
              speed = 0, altitude = 0, lat_t = lat lastPos, lng_t = lng lastPos,
              status = Some st \<rparr>
      in if st = ''Powered Off'' then
           (let (r, w1) = Math_random w in
            (telemetryData\<lparr>temperature := 22 + r * 3, speed := 0, altitude := 0,
               lat_t := lat basePosition, lng_t := lng basePosition\<rparr>, w1))
         else if st = ''Standby'' then
           (let (r, w1) = Math_random w in
            (telemetryData\<lparr>temperature := 25 + r * 3, battery := min 100 (batt + 1),
               speed := 0, altitude := 0,
               lat_t := lat basePosition, lng_t := lng basePosition\<rparr>, w1))
         else if st = ''Pre-Flight'' then
           (let (r, w1) = Math_random w in
            (telemetryData\<lparr>temperature := 28 + r * 3, speed := 0, altitude := 0,
               lat_t := lat basePosition, lng_t := lng basePosition\<rparr>, w1))
         else if st = ''Active'' then
           (let (r, w1) = Math_random w in
            (telemetryData\<lparr>temperature := 30 + r * 4, battery := max (batt - 0.5) 20,
               speed := 0, altitude := 0,
               lat_t := lat basePosition, lng_t := lng basePosition\<rparr>, w1))
         else if st = ''In Flight'' then
           (let (r1, w1) = Math_random w;
                (r2, w2) = Math_random w1;
                (r3, w3) = Math_random w2;
                (r4, w4) = Math_random w3;
                (r5, w5) = Math_random w4
            in (telemetryData\<lparr>temperature := 35 + r1 * 6, battery := max (batt - 2) 15,
                  speed := 40 + r2 * 25, altitude := 120 + r3 * 80,
                  lat_t := lat lastPos + (r4 - 0.5) * 0.01,
                  lng_t := lng lastPos + (r5 - 0.5) * 0.01\<rparr>, w5))
         else if st = ''Landing'' then
           (let (r1, w1) = Math_random w;
                (r2, w2) = Math_random w1;
                (r3, w3) = Math_random w2
            in (telemetryData\<lparr>temperature := 33 + r1 * 4, battery := max (batt - 1) 15,
                  speed := 5 + r2 * 10, altitude := r3 * 20,
                  lat_t := lat lastPos, lng_t := lng lastPos\<rparr>, w3))
         else if st = ''Delivered'' then
           (let (r, w1) = Math_random w in
            (telemetryData\<lparr>temperature := 32 + r * 4, battery := max (batt - 0.5) 15,
               speed := 0, altitude := 0,
               lat_t := lat lastPos, lng_t := lng lastPos\<rparr>, w1))
         else if st = ''Returning'' then
           (let (r1, w1) = Math_random w;
                (r2, w2) = Math_random w1;
                (r3, w3) = Math_random w2
            in (telemetryData\<lparr>temperature := 34 + r1 * 5, battery := max (batt - 1.5) 15,
                  speed := 35 + r2 * 20, altitude := 100 + r3 * 60,
                  lat_t := lat lastPos + (lat basePosition - lat lastPos) * 0.1,
                  lng_t := lng lastPos + (lng basePosition - lng lastPos) * 0.1\<rparr>, w3))
         else if st = ''Maintenance'' then
           (let (r, w1) = Math_random w in
            (telemetryData\<lparr>temperature := 24 + r * 2, battery := batt,
               speed := 0, altitude := 0,
               lat_t := lat basePosition, lng_t := lng basePosition\<rparr>, w1))
         else if st = ''Emergency'' then
           (let (r1, w1) = Math_random w;
                (r2, w2) = Math_random w1;
                (r3, w3) = Math_random w2
            in (telemetryData\<lparr>temperature := 40 + r1 * 8, battery := max (batt - 3) 5,
                  speed := r2 * 15, altitude := r3 * 50,
                  lat_t := lat lastPos, lng_t := lng lastPos\<rparr>, w3))
         else (telemetryData, w))"

text \<open>The JSON of the handler's successful response, and its three outcomes.\<close>

record PostSuccess =
  message :: string
  droneId_r :: string
  status_r :: string
  isOnline_r :: bool
  battery_r :: real
  timestamp_r :: int
  overrideActive :: bool
  overrideExpiry_r :: int

datatype response = Status400 | Status500 | Status200 PostSuccess

text \<open>
  What \<^verbatim>\<open>POST\<close> does once the override expiry is computed, up to its response. An
  exception (a failing persistence call, \<^verbatim>\<open>toISOString\<close> on an invalid date) ends
  the handler with status 500 and keeps the writes made before it.
\<close>

definition POST_override ::
  "world \<Rightarrow> registry \<Rightarrow> string \<Rightarrow> string \<Rightarrow> PostBody \<Rightarrow> jsdate \<Rightarrow>
   response \<times> world \<times> registry" where
  "POST_override w1 droneStates' k st body expiry =
     (let (connected, w2) = db_call w1 in
      if \<not> connected then (Status500, w2, droneStates')
      else
        (let (found, w3) = db_call w2 in
         if \<not> found then (Status500, w3, droneStates')
         else
           (let lastTelemetry = findLatest (concat (collection w3)) k;
                batt = (case battery_b body of
                          Some b \<Rightarrow> b
                        | None \<Rightarrow>
                            (case lastTelemetry of
                               None \<Rightarrow> 85
                             | Some t \<Rightarrow> if battery t = 0 then 85 else battery t));
                (updated, w4) = new_Date w3;
                states = droneStates'(k \<mapsto>
                  \<lparr> status_o = st,
                    isOnline = (case isOnline_b body of
                                  Some b \<Rightarrow> b | None \<Rightarrow> st \<noteq> ''Powered Off''),
                    battery_o = Some batt,
                    lastUpdate = updated,
                    manualOverride = True,
                    overrideExpiry = Some expiry,
                    lastPosition =
                      (case lastTelemetry of
                         None \<Rightarrow> None
                       | Some t \<Rightarrow> Some \<lparr>lat = lat_t t, lng = lng_t t\<rparr>) \<rparr>);
                lastPos = (case lastTelemetry of
                             None \<Rightarrow> basePosition
                           | Some t \<Rightarrow> \<lparr>lat = lat_t t, lng = lng_t t\<rparr>);
                (realisticTelemetry, w5) = generateRealisticTelemetry w4 k st batt lastPos;
                (saved, w6) = db_call w5
            in if \<not> saved then (Status500, w6, states)
               else
                 (let w7 = w6\<lparr>collection := collection w6 @ [[realisticTelemetry]]\<rparr>;
                      (stamp, w8) = new_Date w7
                  in case expiry of
                       InvalidDate \<Rightarrow> (Status500, w8, states)
                     | DateValue e \<Rightarrow>
                         (Status200
                            \<lparr> message = ''Drone '' @ k @ '' manually set to '' @ st,
                              droneId_r = k, status_r = st,
                              isOnline_r = (speed realisticTelemetry > 0 \<or> st = ''Active''),
                              battery_r = battery realisticTelemetry,
                              timestamp_r = stamp,
                              overrideActive = True,
                              overrideExpiry_r = e \<rparr>, w8, states)))))"

definition POST :: "world \<Rightarrow> registry \<Rightarrow> PostBody \<Rightarrow> response \<times> world \<times> registry" where
  "POST w droneStates' body =
     (case (droneId_b body, status_b body) of
        (Some k, Some st) \<Rightarrow>
          if k = [] \<or> st = [] then (Status400, w, droneStates')
          else
            (let (now, w1) = new_Date w;
                 expiry = date_plus w1 now (overrideDuration (duration body))
             in POST_override w1 droneStates' k st body expiry)
      | _ \<Rightarrow> (Status400, w, droneStates'))"

section \<open>Example inputs\<close>

definition world0 :: world where
  "world0 = \<lparr> randoms = (\<lambda>n. 1 / 20), clock = (\<lambda>n. 2000 + int n),
              getHours = (\<lambda>t. (t div 3600000) mod 24),
              getDay = (\<lambda>t. (t div 86400000 + 4) mod 7),
              dbUp = (\<lambda>n. True),
              collection = [],
              dateOfConcat = (\<lambda>t s. InvalidDate) \<rparr>"

definition world1 :: world where
  "world1 = world0\<lparr>clock := (\<lambda>n. 36000000 + int n)\<rparr>"

definition world2 :: world where
  "world2 = world0\<lparr>randoms := (\<lambda>n. 33 / 100)\<rparr>"

definition world3 :: world where
  "world3 = world0\<lparr>randoms := (\<lambda>n. 7 / 100)\<rparr>"

definition entry0 :: OverrideEntry where
  "entry0 = \<lparr> status_o = ''Maintenance'', isOnline = True, battery_o = Some 85,
              lastUpdate = 0, manualOverride = True,
              overrideExpiry = Some (DateValue 1000), lastPosition = None \<rparr>"

definition profileA1 :: DroneProfile where
  "profileA1 =
     newProfile (''A1'', ''Drone A1'', \<lparr>lat = -1.2921, lng = 36.8219\<rparr>, 0.8, 65, 150) (1 / 2)"

definition sim0 :: simulator where
  "sim0 = \<lparr> isRunning = True,
             profiles = fst (initializeProfiles world0),
             droneStates = Some [''A1'' \<mapsto> entry0\<lparr>overrideExpiry := Some (DateValue 5000)\<rparr>] \<rparr>"

definition body0 :: PostBody where
  "body0 = \<lparr> droneId_b = Some ''A1'', status_b = Some ''Maintenance'', isOnline_b = None,
             battery_b = None, duration = JNum 0 \<rparr>"

section \<open>The override check\<close>

lemma isDroneUnderManualOverride_Some:
  "isDroneUnderManualOverride w (Some m) k =
     (case route_isDroneUnderManualOverride w m k of (b, w', m') \<Rightarrow> (b, w', Some m'))"
  by (simp add: isDroneUnderManualOverride_def route_isDroneUnderManualOverride_def
      split: option.splits prod.splits)

lemma route_check_inactive:
  "(case m k of None \<Rightarrow> True | Some e \<Rightarrow> \<not> manualOverride e) \<Longrightarrow>
   route_isDroneUnderManualOverride w m k = (False, w, m)"
  by (simp add: route_isDroneUnderManualOverride_def split: option.splits)

lemma route_check_expired:
  "m k = Some e \<Longrightarrow> manualOverride e \<Longrightarrow> overrideExpiry e = Some x \<Longrightarrow>
   date_after (clock w 0) x \<Longrightarrow>
   route_isDroneUnderManualOverride w m k =
     (False, snd (new_Date w), m(k \<mapsto> e\<lparr>manualOverride := False, overrideExpiry := None\<rparr>))"
  by (simp add: route_isDroneUnderManualOverride_def new_Date_def)

lemma route_check_active:
  "m k = Some e \<Longrightarrow> manualOverride e \<Longrightarrow>
   (case overrideExpiry e of None \<Rightarrow> True | Some x \<Rightarrow> \<not> date_after (clock w 0) x) \<Longrightarrow>
   route_isDroneUnderManualOverride w m k = (True, snd (new_Date w), m)"
  by (cases "overrideExpiry e") (simp_all add: route_isDroneUnderManualOverride_def new_Date_def)

text \<open>
  C2. The override check returns false and changes nothing when the registry is not
  loaded, has no entry for the drone, or the entry's flag is false. When the flag is
  true, an expiry exists and the clock is past it, the check stores the entry with the
  flag false and the expiry removed, and returns false. In every other case (flag true
  with no expiry, or with an expiry the clock is not past) it returns true and leaves
  the registry as it was. This holds of the simulator's check and of the route's.
\<close>

theorem isOverridden_contract:
  "isDroneUnderManualOverride w None k = (False, w, None) \<and>
   ((case m k of None \<Rightarrow> True | Some e \<Rightarrow> \<not> manualOverride e) \<longrightarrow>
      isDroneUnderManualOverride w (Some m) k = (False, w, Some m) \<and>
      route_isDroneUnderManualOverride w m k = (False, w, m)) \<and>
   (m k = Some e \<and> manualOverride e \<and> overrideExpiry e = Some x \<and>
    date_after (clock w 0) x \<longrightarrow>
      isDroneUnderManualOverride w (Some m) k =
        (False, snd (new_Date w),
         Some (m(k \<mapsto> e\<lparr>manualOverride := False, overrideExpiry := None\<rparr>))) \<and>
      route_isDroneUnderManualOverride w m k =
        (False, snd (new_Date w),
         m(k \<mapsto> e\<lparr>manualOverride := False, overrideExpiry := None\<rparr>))) \<and>
   (m k = Some e \<and> manualOverride e \<and>
    (case overrideExpiry e of None \<Rightarrow> True | Some x \<Rightarrow> \<not> date_after (clock w 0) x) \<longrightarrow>
      isDroneUnderManualOverride w (Some m) k = (True, snd (new_Date w), Some m) \<and>
      route_isDroneUnderManualOverride w m k = (True, snd (new_Date w), m))"
proof -
  have "isDroneUnderManualOverride w None k = (False, w, None)"
    by (simp add: isDroneUnderManualOverride_def)
  then show ?thesis
    by (simp add: isDroneUnderManualOverride_Some route_check_inactive
        route_check_expired route_check_active)
qed

theorem isOverridden_contract_witness:
  "route_isDroneUnderManualOverride world0 [''A1'' \<mapsto> entry0] ''A1'' =
     (False, snd (new_Date world0),
      [''A1'' \<mapsto> entry0\<lparr>manualOverride := False, overrideExpiry := None\<rparr>]) \<and>
   isDroneUnderManualOverride world0 (Some [''A1'' \<mapsto> entry0]) ''B2'' =
     (False, world0, Some [''A1'' \<mapsto> entry0]) \<and>
   isDroneUnderManualOverride world0
       (Some [''A1'' \<mapsto> entry0\<lparr>overrideExpiry := Some (DateValue 5000)\<rparr>]) ''A1'' =
     (True, snd (new_Date world0),
      Some [''A1'' \<mapsto> entry0\<lparr>overrideExpiry := Some (DateValue 5000)\<rparr>])"
  using isOverridden_contract [of world0 "''A1''" "[''A1'' \<mapsto> entry0]" entry0 "DateValue 1000"]
    isOverridden_contract [of world0 "''B2''" "[''A1'' \<mapsto> entry0]" entry0 "DateValue 1000"]
    isOverridden_contract [of world0 "''A1''"
      "[''A1'' \<mapsto> entry0\<lparr>overrideExpiry := Some (DateValue 5000)\<rparr>]"
      "entry0\<lparr>overrideExpiry := Some (DateValue 5000)\<rparr>" "DateValue 1000"]
  by (simp add: world0_def entry0_def)

lemma check_repeatedly_inactive:
  "m k = Some e \<Longrightarrow> \<not> manualOverride e \<Longrightarrow>
   check_repeatedly n w (Some m) k = replicate n (False, Some m)"
proof (induction n arbitrary: w)
  case 0
  then show ?case by simp
next
  case (Suc n)
  from Suc.prems have "isDroneUnderManualOverride w (Some m) k = (False, w, Some m)"
    by (simp add: isDroneUnderManualOverride_def)
  with Suc show ?case by simp
qed

text \<open>
  C3. An entry whose flag is true and whose expiry is past at the first call: of \<open>n\<close>
  calls of the override check in a row, whatever the clock reads at the later calls,
  every one answers false, and after every one the entry is the original with the flag
  false and no expiry; no call sets the flag again or restores the expiry.
\<close>

theorem expiry_clear_idempotent:
  assumes "m k = Some e" and "manualOverride e" and "overrideExpiry e = Some x"
    and "date_after (clock w 0) x"
  shows "check_repeatedly n w (Some m) k =
           replicate n
             (False, Some (m(k \<mapsto> e\<lparr>manualOverride := False, overrideExpiry := None\<rparr>)))"
proof (cases n)
  case 0
  then show ?thesis by simp
next
  case (Suc j)
  let ?e' = "e\<lparr>manualOverride := False, overrideExpiry := None\<rparr>"
  let ?m' = "m(k \<mapsto> ?e')"
  have first: "isDroneUnderManualOverride w (Some m) k = (False, snd (new_Date w), Some ?m')"
    using assms by (simp add: isDroneUnderManualOverride_Some route_check_expired)
  have "?m' k = Some ?e'" and "\<not> manualOverride ?e'"
    by simp_all
  then have later: "check_repeatedly j (snd (new_Date w)) (Some ?m') k =
      replicate j (False, Some ?m')"
    by (rule check_repeatedly_inactive)
  show ?thesis
    by (simp add: Suc first later)
qed

theorem expiry_clear_idempotent_witness:
  "check_repeatedly 3 world0 (Some [''A1'' \<mapsto> entry0]) ''A1'' =
     [(False, Some [''A1'' \<mapsto> entry0\<lparr>manualOverride := False, overrideExpiry := None\<rparr>]),
      (False, Some [''A1'' \<mapsto> entry0\<lparr>manualOverride := False, overrideExpiry := None\<rparr>]),
      (False, Some [''A1'' \<mapsto> entry0\<lparr>manualOverride := False, overrideExpiry := None\<rparr>])]"
  using expiry_clear_idempotent [of "[''A1'' \<mapsto> entry0]" "''A1''" entry0 "DateValue 1000"
      world0 3]
  by (simp add: world0_def entry0_def numeral_3_eq_3)

section \<open>The mission state machine: battery\<close>

lemma moveTowardsDestination_fields [simp]:
  "id_p (moveTowardsDestination p d) = id_p p"
  "name_p (moveTowardsDestination p d) = name_p p"
  "baseLocation (moveTowardsDestination p d) = baseLocation p"
  "batteryDecayRate (moveTowardsDestination p d) = batteryDecayRate p"
  "maxSpeed (moveTowardsDestination p d) = maxSpeed p"
  "operatingAltitude (moveTowardsDestination p d) = operatingAltitude p"
  "currentBattery (moveTowardsDestination p d) = currentBattery p"
  "missionPhase (moveTowardsDestination p d) = missionPhase p"
  "missionStartTime (moveTowardsDestination p d) = missionStartTime p"
  "destination (moveTowardsDestination p d) = destination p"
  by (simp_all add: moveTowardsDestination_def Let_def)

lemma idle_battery:
  "currentBattery p \<le> 100 \<Longrightarrow> currentBattery (fst (updateDroneState_idle w now p)) \<le> 100"
  by (simp add: updateDroneState_idle_def Let_def Math_random_def split: prod.splits)

lemma preparing_battery:
  "currentBattery (fst (updateDroneState_preparing w p)) = currentBattery p"
  by (simp add: updateDroneState_preparing_def Let_def Math_random_def split: prod.splits)

lemma flying_battery:
  "0 \<le> batteryDecayRate p \<Longrightarrow>
   currentBattery (fst (updateDroneState_flying w p)) \<le> currentBattery p"
  by (simp add: updateDroneState_flying_def Let_def Math_random_def
      split: prod.splits option.splits)

lemma delivering_battery:
  "currentBattery (fst (updateDroneState_delivering w p)) \<le> currentBattery p"
  by (simp add: updateDroneState_delivering_def Let_def Math_random_def split: prod.splits)

lemma returning_battery:
  "0 \<le> batteryDecayRate p \<Longrightarrow>
   currentBattery (fst (updateDroneState_returning w p)) \<le> currentBattery p"
  by (simp add: updateDroneState_returning_def arriveAtBase_def Let_def Math_random_def
      split: prod.splits)

text \<open>The step, phase by phase: the branch's profile with the battery floor applied.\<close>

lemma updateDroneState_phase:
  "fst (updateDroneState w p) =
     floor15 (fst (case missionPhase p of
        idle \<Rightarrow> updateDroneState_idle (snd (new_Date w)) (clock w 0) p
      | preparing \<Rightarrow> updateDroneState_preparing (snd (new_Date w)) p
      | flying \<Rightarrow> updateDroneState_flying (snd (new_Date w)) p
      | delivering \<Rightarrow> updateDroneState_delivering (snd (new_Date w)) p
      | returning \<Rightarrow> updateDroneState_returning (snd (new_Date w)) p))"
  by (cases "missionPhase p")
    (simp_all add: updateDroneState_def floor15_def new_Date_def Let_def split: prod.splits)

lemma updateDroneState_battery_floor: "15 \<le> currentBattery (fst (updateDroneState w p))"
  by (simp add: updateDroneState_phase floor15_def)

lemma updateDroneState_battery_cap:
  assumes "0 \<le> batteryDecayRate p" and "currentBattery p \<le> 100"
  shows "currentBattery (fst (updateDroneState w p)) \<le> 100"
proof (cases "missionPhase p")
  case idle
  with idle_battery [OF assms(2)] show ?thesis
    by (simp add: updateDroneState_phase floor15_def)
next
  case preparing
  with assms(2) show ?thesis
    by (simp add: updateDroneState_phase floor15_def preparing_battery)
next
  case flying
  with flying_battery [OF assms(1), of "snd (new_Date w)"] assms(2) show ?thesis
    by (simp add: updateDroneState_phase floor15_def)
next
  case delivering
  with delivering_battery [of "snd (new_Date w)" p] assms(2) show ?thesis
    by (simp add: updateDroneState_phase floor15_def)
next
  case returning
  with returning_battery [OF assms(1), of "snd (new_Date w)"] assms(2) show ?thesis
    by (simp add: updateDroneState_phase floor15_def)
qed

lemma updateDroneState_battery_no_gain:
  assumes "0 \<le> batteryDecayRate p" and "missionPhase p \<noteq> idle"
  shows "currentBattery (fst (updateDroneState w p)) \<le> max 15 (currentBattery p)"
proof (cases "missionPhase p")
  case idle
  with assms(2) show ?thesis by simp
next
  case preparing
  then show ?thesis
    by (simp add: updateDroneState_phase floor15_def preparing_battery)
next
  case flying
  with flying_battery [OF assms(1), of "snd (new_Date w)"] show ?thesis
    by (simp add: updateDroneState_phase floor15_def)
next
  case delivering
  with delivering_battery [of "snd (new_Date w)" p] show ?thesis
    by (simp add: updateDroneState_phase floor15_def)
next
  case returning
  with returning_battery [OF assms(1), of "snd (new_Date w)"] show ?thesis
    by (simp add: updateDroneState_phase floor15_def)
qed

lemma configured_cases:
  "configured p \<Longrightarrow>
   0 < batteryDecayRate p \<and> 60 \<le> maxSpeed p \<and> maxSpeed p \<le> 75 \<and>
   120 \<le> operatingAltitude p \<and> operatingAltitude p \<le> 200 \<and>
   -2 \<le> lat (baseLocation p) \<and> lat (baseLocation p) \<le> -1 \<and>
   36 \<le> lng (baseLocation p) \<and> lng (baseLocation p) \<le> 37"
  by (auto simp: configured_def initialProfiles_def)

lemma configured_profileA1: "configured profileA1"
  by (simp add: configured_def profileA1_def initialProfiles_def)

text \<open>
  C4. A profile of one of the configured drones whose battery is at most 100: after
  \<^verbatim>\<open>updateDroneState\<close> its battery is at least 15 and at most 100, and outside the
  idle phase the step does not raise the battery above the larger of its old value and
  the floor of 15.
\<close>

theorem battery_stays_in_range:
  assumes "configured p" and "currentBattery p \<le> 100"
  shows "15 \<le> currentBattery (fst (updateDroneState w p)) \<and>
         currentBattery (fst (updateDroneState w p)) \<le> 100 \<and>
         (missionPhase p \<noteq> idle \<longrightarrow>
            currentBattery (fst (updateDroneState w p)) \<le> max 15 (currentBattery p))"
proof -
  from assms(1) have decay: "0 \<le> batteryDecayRate p"
    using configured_cases [of p] by simp
  show ?thesis
    using updateDroneState_battery_floor [of w p]
      updateDroneState_battery_cap [OF decay assms(2), of w]
      updateDroneState_battery_no_gain [OF decay, of w]
    by simp
qed

theorem battery_stays_in_range_witness:
  "15 \<le> currentBattery (fst (updateDroneState world0 profileA1)) \<and>
   currentBattery (fst (updateDroneState world0 profileA1)) \<le> 100 \<and>
   currentBattery (fst (updateDroneState world0 (profileA1\<lparr>missionPhase := delivering\<rparr>)))
     \<le> 185 / 2"
proof -
  have c: "configured (profileA1\<lparr>missionPhase := delivering\<rparr>)"
    using configured_profileA1 by (simp add: configured_def)
  have b: "currentBattery profileA1 = 185 / 2"
    by (simp add: profileA1_def)
  show ?thesis
    using battery_stays_in_range [OF configured_profileA1, of world0]
      battery_stays_in_range [OF c, of world0] b
    by simp
qed

section \<open>Reachable profiles\<close>

lemma updateDroneState_static:
  "id_p (fst (updateDroneState w p)) = id_p p \<and>
   name_p (fst (updateDroneState w p)) = name_p p \<and>
   baseLocation (fst (updateDroneState w p)) = baseLocation p \<and>
   batteryDecayRate (fst (updateDroneState w p)) = batteryDecayRate p \<and>
   maxSpeed (fst (updateDroneState w p)) = maxSpeed p \<and>
   operatingAltitude (fst (updateDroneState w p)) = operatingAltitude p"
  by (cases "missionPhase p")
    (simp_all add: updateDroneState_phase floor15_def updateDroneState_idle_def
      updateDroneState_preparing_def updateDroneState_flying_def
      updateDroneState_delivering_def updateDroneState_returning_def arriveAtBase_def
      Math_random_def Let_def split: prod.splits option.splits)

lemma configured_updateDroneState:
  "configured p \<Longrightarrow> configured (fst (updateDroneState w p))"
  by (simp add: configured_def updateDroneState_static)

lemma configured_newProfile: "c \<in> set initialProfiles \<Longrightarrow> configured (newProfile c r)"
  by (cases c) (simp add: configured_def)

lemma reachable_configured: "reachable p \<Longrightarrow> configured p"
  by (induction rule: reachable.induct)
    (simp_all add: configured_newProfile configured_updateDroneState)

lemma reachable_battery:
  "reachable p \<Longrightarrow> 15 \<le> currentBattery p \<and> currentBattery p \<le> 100"
proof (induction rule: reachable.induct)
  case (reachable_init c r)
  obtain i n b d v a where "c = (i, n, b, d, v, a)"
    by (cases c)
  with reachable_init show ?case by simp
next
  case (reachable_step p w)
  then have "0 \<le> batteryDecayRate p"
    using configured_cases [of p] by (simp add: reachable_configured)
  with reachable_step.IH show ?case
    using updateDroneState_battery_floor [of w p] updateDroneState_battery_cap [of p w]
    by simp
qed

lemma reachable_profileA1: "reachable profileA1"
  unfolding profileA1_def
  by (rule reachable_init) (simp_all add: initialProfiles_def)

section \<open>The idle phase\<close>

lemma array_at_destinations:
  assumes "0 \<le> r" and "r < 1"
  shows "\<exists>d. array_at destinations \<lfloor>r * real (length destinations)\<rfloor> = Some d \<and>
             d \<in> set destinations"
proof -
  have len: "length destinations = 5" by (simp add: destinations_def)
  have lo: "0 \<le> \<lfloor>r * 5\<rfloor>" using assms by simp
  have "r * 5 < 5" using assms by simp
  then have hi: "\<lfloor>r * 5\<rfloor> < 5" by (simp add: floor_less_iff)
  from lo hi have "nat \<lfloor>r * 5\<rfloor> < length destinations"
    unfolding len by linarith
  then have "destinations ! nat \<lfloor>r * 5\<rfloor> \<in> set destinations" by (rule nth_mem)
  with lo hi show ?thesis by (simp add: array_at_def len)
qed

text \<open>
  C8. A drone of the simulator in phase idle, with the random numbers in \<open>[0, 1)\<close>.
  If the local hour of the step's clock reading is between 8 and 18, the next random
  number is below 0.10 and the battery exceeds 50, the step sets the phase to preparing,
  the mission start time to that clock reading, and the destination to one of the five
  sites of the fixed list. Otherwise the phase stays idle and the battery becomes the
  old one plus 0.3, capped at 100.
\<close>

theorem idle_step:
  assumes "reachable p" and "missionPhase p = idle" and "random_ok w"
  shows "(8 \<le> getHours w (clock w 0) \<and> getHours w (clock w 0) \<le> 18 \<and>
          randoms w 0 < 0.10 \<and> currentBattery p > 50 \<longrightarrow>
            missionPhase (fst (updateDroneState w p)) = preparing \<and>
            missionStartTime (fst (updateDroneState w p)) = Some (clock w 0) \<and>
            (\<exists>d. destination (fst (updateDroneState w p)) = Some d \<and>
                 d \<in> set destinations) \<and>
            length destinations = 5) \<and>
         (\<not> (8 \<le> getHours w (clock w 0) \<and> getHours w (clock w 0) \<le> 18 \<and>
             randoms w 0 < 0.10 \<and> currentBattery p > 50) \<longrightarrow>
            missionPhase (fst (updateDroneState w p)) = idle \<and>
            currentBattery (fst (updateDroneState w p)) = min 100 (currentBattery p + 0.3))"
proof -
  let ?w = "snd (new_Date w)"
  let ?start = "8 \<le> getHours w (clock w 0) \<and> getHours w (clock w 0) \<le> 18 \<and>
          randoms w 0 < 0.10 \<and> currentBattery p > 50"
  from assms(1) have batt: "15 \<le> currentBattery p" "currentBattery p \<le> 100"
    using reachable_battery [of p] by simp_all
  from assms(3) have r1: "0 \<le> randoms w 1" "randoms w 1 < 1"
    by (simp_all add: random_ok_def)
  have step: "fst (updateDroneState w p) =
      floor15 (fst (updateDroneState_idle ?w (clock w 0) p))"
    using assms(2) by (simp add: updateDroneState_phase)
  have start: "?start \<longrightarrow>
      missionPhase (fst (updateDroneState w p)) = preparing \<and>
      missionStartTime (fst (updateDroneState w p)) = Some (clock w 0) \<and>
      (\<exists>d. destination (fst (updateDroneState w p)) = Some d \<and> d \<in> set destinations) \<and>
      length destinations = 5"
  proof
    assume a: ?start
    then have "fst (updateDroneState_idle ?w (clock w 0) p) =
        p\<lparr>missionPhase := preparing, missionStartTime := Some (clock w 0),
          destination := array_at destinations
            \<lfloor>randoms w 1 * real (length destinations)\<rfloor>\<rparr>"
      by (simp add: updateDroneState_idle_def Math_random_def new_Date_def Let_def)
    with array_at_destinations [OF r1]
    show "missionPhase (fst (updateDroneState w p)) = preparing \<and>
      missionStartTime (fst (updateDroneState w p)) = Some (clock w 0) \<and>
      (\<exists>d. destination (fst (updateDroneState w p)) = Some d \<and> d \<in> set destinations) \<and>
      length destinations = 5"
      by (simp add: step floor15_def destinations_def)
  qed
  have stay: "\<not> ?start \<longrightarrow>
      missionPhase (fst (updateDroneState w p)) = idle \<and>
      currentBattery (fst (updateDroneState w p)) = min 100 (currentBattery p + 0.3)"
  proof
    assume a: "\<not> ?start"
    then have "fst (updateDroneState_idle ?w (clock w 0) p) =
        p\<lparr>currentBattery := min 100 (currentBattery p + 0.3)\<rparr>"
      by (auto simp add: updateDroneState_idle_def Math_random_def new_Date_def Let_def)
    with batt assms(2)
    show "missionPhase (fst (updateDroneState w p)) = idle \<and>
      currentBattery (fst (updateDroneState w p)) = min 100 (currentBattery p + 0.3)"
      by (simp add: step floor15_def)
  qed
  from start stay show ?thesis by blast
qed

lemma random_ok_world0: "random_ok world0"
  by (simp add: random_ok_def world0_def)

lemma random_ok_world1: "random_ok world1"
  by (simp add: random_ok_def world1_def world0_def)

theorem idle_step_witness:
  "missionPhase (fst (updateDroneState world1 profileA1)) = preparing \<and>
   missionStartTime (fst (updateDroneState world1 profileA1)) = Some 36000000 \<and>
   missionPhase (fst (updateDroneState world0 profileA1)) = idle \<and>
   currentBattery (fst (updateDroneState world0 profileA1)) = 464 / 5"
proof -
  have ph: "missionPhase profileA1 = idle"
    by (simp add: profileA1_def)
  have b: "currentBattery profileA1 = 185 / 2"
    by (simp add: profileA1_def)
  have h1: "getHours world1 36000000 = 10" "randoms world1 0 = 1 / 20"
    "clock world1 0 = 36000000"
    by (simp_all add: world1_def world0_def)
  have h0: "getHours world0 (clock world0 0) = 0" "getHours world0 2000 = 0"
    by (simp_all add: world0_def)
  show ?thesis
    using idle_step [OF reachable_profileA1 ph random_ok_world1]
      idle_step [OF reachable_profileA1 ph random_ok_world0]
    by (simp add: b h1 h0)
qed

section \<open>The telemetry synthesizer: domains\<close>

lemma Math_round_ge: "real_of_int k \<le> x \<Longrightarrow> real_of_int k \<le> Math_round x"
proof -
  assume "real_of_int k \<le> x"
  then have "real_of_int k \<le> x + 1 / 2" by simp
  then have "k \<le> \<lfloor>x + 1 / 2\<rfloor>" by (simp only: le_floor_iff)
  then show ?thesis by (simp add: Math_round_def)
qed

lemma Math_round_le: "x \<le> real_of_int k \<Longrightarrow> Math_round x \<le> real_of_int k"
proof -
  assume "x \<le> real_of_int k"
  then have "x + 1 / 2 < real_of_int (k + 1)" by simp
  then have "\<lfloor>x + 1 / 2\<rfloor> < k + 1" by (simp only: floor_less_iff)
  then show ?thesis by (simp add: Math_round_def)
qed

lemma rounded_bounds:
  assumes "real_of_int lo \<le> x" and "x \<le> real_of_int hi" and "0 < m"
  shows "real_of_int lo \<le> Math_round (x * real_of_int m) / real_of_int m \<and>
         Math_round (x * real_of_int m) / real_of_int m \<le> real_of_int hi"
proof -
  from assms have "real_of_int (lo * m) \<le> x * real_of_int m"
    by simp
  then have 1: "real_of_int (lo * m) \<le> Math_round (x * real_of_int m)"
    by (rule Math_round_ge)
  from assms have "x * real_of_int m \<le> real_of_int (hi * m)"
    by simp
  then have 2: "Math_round (x * real_of_int m) \<le> real_of_int (hi * m)"
    by (rule Math_round_le)
  from 1 2 assms(3) show ?thesis
    by (simp add: pos_le_divide_eq pos_divide_le_eq)
qed

lemma rounded_bounds_10:
  assumes "real_of_int lo \<le> x" and "x \<le> real_of_int hi"
  shows "real_of_int lo \<le> Math_round (x * 10) / 10 \<and> Math_round (x * 10) / 10 \<le> real_of_int hi"
  using rounded_bounds [OF assms, of 10] by simp

lemma rounded_bounds_6:
  assumes "real_of_int lo \<le> x" and "x \<le> real_of_int hi"
  shows "real_of_int lo \<le> Math_round (x * 1000000) / 1000000 \<and>
         Math_round (x * 1000000) / 1000000 \<le> real_of_int hi"
  using rounded_bounds [OF assms, of 1000000] by simp

lemma Math_round_nonneg: "0 \<le> x \<Longrightarrow> 0 \<le> Math_round x"
  using Math_round_ge [of 0 x] by simp

lemma historicalStandbyPoint_in_domain:
  assumes "random_ok w" and "configured p"
  shows "in_domain (fst (historicalStandbyPoint w p ts))"
proof -
  have r: "0 \<le> randoms w n \<and> randoms w n < 1" for n
    using assms(1) by (simp add: random_ok_def)
  note cfg = configured_cases [OF assms(2)]
  show ?thesis
    using r [of 0] r [of "Suc (Suc 0)"] cfg
    by (simp add: in_domain_def historicalStandbyPoint_def Let_def Math_random_def
        split: prod.splits)
qed

lemma historicalActivePoint_fields:
  "battery (fst (historicalActivePoint w p ts)) =
     Math_round (max 20 (90 - randoms w 0 * 40 + randoms w 1 * 10) * 10) / 10"
  "temperature (fst (historicalActivePoint w p ts)) =
     Math_round ((32 + randoms w 0 * 8 + randoms w 2 * 4) * 10) / 10"
  "humidity (fst (historicalActivePoint w p ts)) =
     Math_round ((55 + randoms w 6 * 25) * 10) / 10"
  "speed (fst (historicalActivePoint w p ts)) =
     Math_round (maxSpeed p * (0.6 + randoms w 3 * 0.4) * 10) / 10"
  "altitude (fst (historicalActivePoint w p ts)) = operatingAltitude p + randoms w 7 * 40 - 20"
  "lat_t (fst (historicalActivePoint w p ts)) =
     Math_round ((lat (baseLocation p) + (randoms w 4 - 0.5) * 0.08) * 1000000) / 1000000"
  "lng_t (fst (historicalActivePoint w p ts)) =
     Math_round ((lng (baseLocation p) + (randoms w 5 - 0.5) * 0.08) * 1000000) / 1000000"
  by (simp_all add: historicalActivePoint_def Let_def Math_random_def eval_nat_numeral
      split: prod.splits)

lemma historicalActivePoint_in_domain:
  assumes "random_ok w" and "configured p"
  shows "in_domain (fst (historicalActivePoint w p ts))"
proof -
  have r: "0 \<le> randoms w n" "randoms w n < 1" for n
    using assms(1) by (simp_all add: random_ok_def)
  note cfg = configured_cases [OF assms(2)]
  from cfg have base: "- 2 \<le> lat (baseLocation p)" "lat (baseLocation p) \<le> - 1"
    "36 \<le> lng (baseLocation p)" "lng (baseLocation p) \<le> 37"
    by simp_all
  let ?t = "fst (historicalActivePoint w p ts)"
  have "real_of_int 0 \<le> max 20 (90 - randoms w 0 * 40 + randoms w 1 * 10)"
    and "max 20 (90 - randoms w 0 * 40 + randoms w 1 * 10) \<le> real_of_int 100"
    using r(1) [of 0] r(2) [of 1] by simp_all
  from rounded_bounds_10 [OF this] have b: "0 \<le> battery ?t \<and> battery ?t \<le> 100"
    by (simp add: historicalActivePoint_fields)
  have "real_of_int 0 \<le> 55 + randoms w 6 * 25" and "55 + randoms w 6 * 25 \<le> real_of_int 100"
    using r(1) [of 6] r(2) [of 6] by simp_all
  from rounded_bounds_10 [OF this] have h: "0 \<le> humidity ?t \<and> humidity ?t \<le> 100"
    by (simp add: historicalActivePoint_fields)
  have "0 \<le> 0.6 + randoms w 3 * 0.4"
    using r(1) [of 3] by simp
  with cfg have "0 \<le> maxSpeed p * (0.6 + randoms w 3 * 0.4) * 10"
    by simp
  then have s: "0 \<le> speed ?t"
    unfolding historicalActivePoint_fields by (simp add: Math_round_nonneg)
  have a: "0 \<le> altitude ?t"
    unfolding historicalActivePoint_fields using cfg r(1) [of 7] by simp
  have "real_of_int (- 90) \<le> lat (baseLocation p) + (randoms w 4 - 0.5) * 0.08"
    and "lat (baseLocation p) + (randoms w 4 - 0.5) * 0.08 \<le> real_of_int 90"
    using base r(1) [of 4] r(2) [of 4] by (simp_all add: field_simps)
  from rounded_bounds_6 [OF this] have la: "- 90 \<le> lat_t ?t \<and> lat_t ?t \<le> 90"
    by (simp add: historicalActivePoint_fields)
  have "real_of_int (- 180) \<le> lng (baseLocation p) + (randoms w 5 - 0.5) * 0.08"
    and "lng (baseLocation p) + (randoms w 5 - 0.5) * 0.08 \<le> real_of_int 180"
    using base r(1) [of 5] r(2) [of 5] by (simp_all add: field_simps)
  from rounded_bounds_6 [OF this] have ln: "- 180 \<le> lng_t ?t \<and> lng_t ?t \<le> 180"
    by (simp add: historicalActivePoint_fields)
  from b h s a la ln show ?thesis
    by (simp add: in_domain_def)
qed

section \<open>Reachable profiles: position\<close>

lemma array_at_Some: "array_at xs i = Some x \<Longrightarrow> x \<in> set xs"
  by (auto simp: array_at_def split: if_splits)

lemma destinations_in_region: "d \<in> set destinations \<Longrightarrow> in_region d"
  by (auto simp: destinations_def in_region_def)

lemma between:
  fixes a c t lo hi :: real
  assumes "0 \<le> t" and "t \<le> 1" and "lo \<le> a" and "a \<le> hi" and "lo \<le> c" and "c \<le> hi"
  shows "lo \<le> a + (c - a) * t \<and> a + (c - a) * t \<le> hi"
proof -
  have eq: "a + (c - a) * t = (1 - t) * a + t * c"
    by (simp add: algebra_simps)
  have "(1 - t) * lo \<le> (1 - t) * a" and "t * lo \<le> t * c"
    using assms by (simp_all add: mult_left_mono)
  then have 1: "lo \<le> (1 - t) * a + t * c"
    by (simp add: algebra_simps)
  have "(1 - t) * a \<le> (1 - t) * hi" and "t * c \<le> t * hi"
    using assms by (simp_all add: mult_left_mono)
  then have 2: "(1 - t) * a + t * c \<le> hi"
    by (simp add: algebra_simps)
  from 1 2 show ?thesis by (simp add: eq)
qed

lemma moveTowardsDestination_in_region:
  assumes "in_region (currentLocation p)" and "in_region d" and "0 \<le> maxSpeed p"
  shows "in_region (currentLocation (moveTowardsDestination p d))"
proof -
  define D where "D = sqrt ((lat d - lat (currentLocation p)) * (lat d - lat (currentLocation p))
      + (lng d - lng (currentLocation p)) * (lng d - lng (currentLocation p)))"
  show ?thesis
  proof (cases "D > 0")
    case False
    then have "moveTowardsDestination p d = p"
      by (simp add: moveTowardsDestination_def D_def Let_def)
    with assms(1) show ?thesis by simp
  next
    case True
    define t where "t = min (degreeStep p / D) 1"
    have "0 \<le> degreeStep p"
      using assms(3) by (simp add: degreeStep_def Let_def)
    with True have t: "0 \<le> t" "t \<le> 1"
      by (simp_all add: t_def)
    have loc: "currentLocation (moveTowardsDestination p d) =
        \<lparr>lat = lat (currentLocation p) + (lat d - lat (currentLocation p)) * t,
         lng = lng (currentLocation p) + (lng d - lng (currentLocation p)) * t\<rparr>"
      using True by (simp add: moveTowardsDestination_def D_def t_def Let_def)
    from assms(1,2) show ?thesis
      using between [OF t, of "- 2" "lat (currentLocation p)" "- 1" "lat d"]
        between [OF t, of 36 "lng (currentLocation p)" 37 "lng d"]
      by (simp add: loc in_region_def)
  qed
qed

lemma updateDroneState_location:
  assumes "configured p" and "in_region (currentLocation p)"
    and "\<forall>d. destination p = Some d \<longrightarrow> in_region d"
  shows "in_region (currentLocation (fst (updateDroneState w p))) \<and>
         (\<forall>d. destination (fst (updateDroneState w p)) = Some d \<longrightarrow> in_region d)"
proof -
  from configured_cases [OF assms(1)]
  have v: "0 \<le> maxSpeed p" and base: "in_region (baseLocation p)"
    by (simp_all add: in_region_def)
  show ?thesis
  proof (cases "missionPhase p")
    case idle
    with assms(2,3) show ?thesis
      by (auto simp: updateDroneState_phase floor15_def updateDroneState_idle_def
          Math_random_def Let_def split: prod.splits
          dest!: array_at_Some destinations_in_region)
  next
    case preparing
    with assms(2,3) show ?thesis
      by (simp add: updateDroneState_phase floor15_def updateDroneState_preparing_def
          Math_random_def Let_def split: prod.splits)
  next
    case flying
    show ?thesis
    proof (cases "destination p")
      case None
      with flying assms(2) show ?thesis
        by (simp add: updateDroneState_phase floor15_def updateDroneState_flying_def)
    next
      case (Some d)
      with assms(3) have "in_region d" by simp
      then have "in_region (currentLocation (moveTowardsDestination p d))"
        using assms(2) v by (simp add: moveTowardsDestination_in_region)
      with flying Some \<open>in_region d\<close> show ?thesis
        by (simp add: updateDroneState_phase floor15_def updateDroneState_flying_def
            Math_random_def Let_def split: prod.splits)
    qed
  next
    case delivering
    with assms(2,3) show ?thesis
      by (simp add: updateDroneState_phase floor15_def updateDroneState_delivering_def
          Math_random_def Let_def split: prod.splits)
  next
    case returning
    have "in_region (currentLocation (moveTowardsDestination p (baseLocation p)))"
      using assms(2) base v by (simp add: moveTowardsDestination_in_region)
    with returning base assms(3) show ?thesis
      by (simp add: updateDroneState_phase floor15_def updateDroneState_returning_def
          arriveAtBase_def Math_random_def Let_def split: prod.splits)
  qed
qed

lemma reachable_location:
  "reachable p \<Longrightarrow>
   in_region (currentLocation p) \<and> (\<forall>d. destination p = Some d \<longrightarrow> in_region d)"
proof (induction rule: reachable.induct)
  case (reachable_init c r)
  then have "configured (newProfile c r)"
    by (simp add: configured_newProfile)
  from configured_cases [OF this] show ?case
    by (cases c) (simp add: in_region_def)
next
  case (reachable_step p w)
  then show ?case
    using updateDroneState_location [of p w] by (simp add: reachable_configured)
qed

section \<open>The live telemetry point\<close>

lemma phaseReadings_world:
  "getHours (snd (phaseReadings w p)) = getHours w"
  by (cases "missionPhase p")
    (simp_all add: phaseReadings_def Math_random_def Let_def split: prod.splits)

lemma phaseReadings_bounds:
  assumes "random_ok w" and "configured p"
  shows "0 \<le> fst (snd (fst (phaseReadings w p))) \<and>
         0 \<le> fst (snd (snd (fst (phaseReadings w p)))) \<and>
         random_ok (snd (phaseReadings w p))"
proof -
  have r: "0 \<le> randoms w n" "randoms w n < 1" for n
    using assms(1) by (simp_all add: random_ok_def)
  from configured_cases [OF assms(2)]
  have v: "0 \<le> maxSpeed p" and alt: "120 \<le> operatingAltitude p"
    by simp_all
  have s1: "0 \<le> maxSpeed p * (0.8 + randoms w 0 * 0.2)"
    using v r(1) [of 0] by simp
  have s2: "0 \<le> maxSpeed p * (0.7 + randoms w 0 * 0.2)"
    using v r(1) [of 0] by simp
  have a1: "0 \<le> operatingAltitude p + randoms w (Suc 0) * 30 - 15"
    using alt r(1) [of "Suc 0"] by simp
  have a2: "0 \<le> operatingAltitude p + randoms w (Suc 0) * 25 - 10"
    using alt r(1) [of "Suc 0"] by simp
  show ?thesis
    using s1 s2 a1 a2
    by (cases "missionPhase p")
      (simp_all add: phaseReadings_def Math_random_def Let_def random_ok_def r
        split: prod.splits)
qed

lemma generateCurrentTelemetry_fields:
  "battery (fst (generateCurrentTelemetry w p ts)) = Math_round (currentBattery p * 10) / 10"
  "humidity (fst (generateCurrentTelemetry w p ts)) =
     Math_round ((65 - \<bar>real_of_int (getHours w ts - 14)\<bar> * 1.5
        + randoms (snd (phaseReadings (snd (Math_random w)) p)) 0 * 15) * 10) / 10"
  "speed (fst (generateCurrentTelemetry w p ts)) =
     Math_round (fst (snd (fst (phaseReadings (snd (Math_random w)) p))) * 10) / 10"
  "altitude (fst (generateCurrentTelemetry w p ts)) =
     Math_round (fst (snd (snd (fst (phaseReadings (snd (Math_random w)) p)))))"
  "lat_t (fst (generateCurrentTelemetry w p ts)) =
     Math_round (lat (currentLocation p) * 1000000) / 1000000"
  "lng_t (fst (generateCurrentTelemetry w p ts)) =
     Math_round (lng (currentLocation p) * 1000000) / 1000000"
  "droneId (fst (generateCurrentTelemetry w p ts)) = id_p p"
  by (simp_all add: generateCurrentTelemetry_def Let_def case_prod_beta phaseReadings_world
      Math_random_def)

lemma generateCurrentTelemetry_in_domain:
  assumes "random_ok w" and "localtime_ok w" and "reachable p"
  shows "in_domain (fst (generateCurrentTelemetry w p ts))"
proof -
  let ?t = "fst (generateCurrentTelemetry w p ts)"
  let ?w1 = "snd (Math_random w)"
  from assms(3) have cfg: "configured p" by (rule reachable_configured)
  have ok1: "random_ok ?w1"
    using assms(1) by (simp add: random_ok_def Math_random_def)
  note pr = phaseReadings_bounds [OF ok1 cfg]
  from pr have rh: "0 \<le> randoms (snd (phaseReadings ?w1 p)) 0"
    "randoms (snd (phaseReadings ?w1 p)) 0 < 1"
    by (simp_all add: random_ok_def)
  from assms(2) have hrs: "0 \<le> getHours w ts" "getHours w ts \<le> 23"
    by (simp_all add: localtime_ok_def)
  have "real_of_int 0 \<le> currentBattery p" and "currentBattery p \<le> real_of_int 100"
    using reachable_battery [OF assms(3)] by simp_all
  from rounded_bounds_10 [OF this] have b: "0 \<le> battery ?t \<and> battery ?t \<le> 100"
    by (simp add: generateCurrentTelemetry_fields)
  define X where "X = \<bar>real_of_int (getHours w ts - 14)\<bar>"
  define R where "R = randoms (snd (phaseReadings ?w1 p)) 0"
  have X: "0 \<le> X" "X \<le> 14"
    using hrs by (simp_all add: X_def)
  have R: "0 \<le> R" "R < 1"
    using rh by (simp_all add: R_def)
  have "real_of_int 0 \<le> 65 - X * 1.5 + R * 15" and "65 - X * 1.5 + R * 15 \<le> real_of_int 100"
    using X R by simp_all
  from rounded_bounds_10 [OF this] have h: "0 \<le> humidity ?t \<and> humidity ?t \<le> 100"
    by (simp add: generateCurrentTelemetry_fields X_def R_def)
  have s: "0 \<le> speed ?t"
    using pr by (simp add: generateCurrentTelemetry_fields Math_round_nonneg)
  have a: "0 \<le> altitude ?t"
    using pr by (simp add: generateCurrentTelemetry_fields Math_round_nonneg)
  from reachable_location [OF assms(3)] have reg: "in_region (currentLocation p)"
    by simp
  then have "real_of_int (- 90) \<le> lat (currentLocation p)"
    and "lat (currentLocation p) \<le> real_of_int 90"
    by (simp_all add: in_region_def)
  from rounded_bounds_6 [OF this] have la: "- 90 \<le> lat_t ?t \<and> lat_t ?t \<le> 90"
    by (simp add: generateCurrentTelemetry_fields)
  from reg have "real_of_int (- 180) \<le> lng (currentLocation p)"
    and "lng (currentLocation p) \<le> real_of_int 180"
    by (simp_all add: in_region_def)
  from rounded_bounds_6 [OF this] have ln: "- 180 \<le> lng_t ?t \<and> lng_t ?t \<le> 180"
    by (simp add: generateCurrentTelemetry_fields)
  from b h s a la ln show ?thesis
    by (simp add: in_domain_def)
qed

lemma generateHistoricalDataPoint_in_domain:
  assumes "random_ok w" and "configured p"
  shows "in_domain (fst (generateHistoricalDataPoint w p ts))"
proof -
  have ok1: "random_ok (snd (Math_random w))"
    using assms(1) by (simp add: random_ok_def Math_random_def)
  show ?thesis
    using historicalActivePoint_in_domain [OF ok1 assms(2), of ts]
      historicalStandbyPoint_in_domain [OF ok1 assms(2), of ts]
    by (cases "Math_random w") (auto simp add: generateHistoricalDataPoint_def Let_def)
qed

text \<open>
  C5. With the random numbers in \<open>[0, 1)\<close> and the local hour in 0..23: the historical
  point of any profile of a configured drone, at any timestamp, and the live point of
  any reachable profile have battery and humidity in \<open>[0, 100]\<close>, speed and altitude at
  least 0, latitude in \<open>[-90, 90]\<close> and longitude in \<open>[-180, 180]\<close>.
\<close>

theorem telemetry_in_domain:
  assumes "random_ok w" and "localtime_ok w"
  shows "(configured p \<longrightarrow> in_domain (fst (generateHistoricalDataPoint w p ts))) \<and>
         (reachable p \<longrightarrow> in_domain (fst (generateCurrentTelemetry w p ts)))"
  using assms
  by (simp add: generateHistoricalDataPoint_in_domain generateCurrentTelemetry_in_domain)

lemma localtime_ok_world0: "localtime_ok world0"
proof -
  have h: "x mod 24 \<le> 23" for x :: int
    using pos_mod_bound [of 24 x] by linarith
  have d: "x mod 7 \<le> 6" for x :: int
    using pos_mod_bound [of 7 x] by linarith
  show ?thesis
    by (simp add: localtime_ok_def world0_def h d)
qed

theorem telemetry_in_domain_witness:
  "in_domain (fst (generateHistoricalDataPoint world0 profileA1 0)) \<and>
   in_domain (fst (generateCurrentTelemetry world0 profileA1 0))"
  using telemetry_in_domain [OF random_ok_world0 localtime_ok_world0, of profileA1 0]
    configured_profileA1 reachable_profileA1
  by simp

section \<open>The telemetry synthesizer: rounding\<close>

lemma rounded_to_Math_round:
  "rounded_to (Suc 0) (Math_round x / 10)"
  "rounded_to 0 (Math_round x)"
  "rounded_to 6 (Math_round x / 1000000)"
  by (simp_all add: rounded_to_def Math_round_def)

text \<open>The live point rounds every reading.\<close>

lemma generateCurrentTelemetry_rounded:
  "rounded_record (fst (generateCurrentTelemetry w p ts))"
  by (simp add: rounded_record_def generateCurrentTelemetry_def Let_def case_prod_beta
      rounded_to_Math_round)

text \<open>
  C6. The historical point does not round every reading. At hour 0, when the first
  random number 0.33 is not below the activity level 0.2, the standby branch stores the
  battery \<open>85 + 0.33 * 15 = 89.95\<close> as it is, with two decimal places. When the random
  numbers are 0.07 the active branch stores the altitude \<open>150 + 0.07 * 40 - 20 = 132.8\<close>
  as it is, not a whole number.
\<close>

theorem historical_point_not_rounded:
  "battery (fst (generateHistoricalDataPoint world2 profileA1 0)) = 1799 / 20 \<and>
   \<not> rounded_to 1 (battery (fst (generateHistoricalDataPoint world2 profileA1 0))) \<and>
   \<not> rounded_record (fst (generateHistoricalDataPoint world2 profileA1 0)) \<and>
   altitude (fst (generateHistoricalDataPoint world3 profileA1 0)) = 664 / 5 \<and>
   \<not> rounded_to 0 (altitude (fst (generateHistoricalDataPoint world3 profileA1 0))) \<and>
   \<not> rounded_record (fst (generateHistoricalDataPoint world3 profileA1 0))"
proof -
  have b: "battery (fst (generateHistoricalDataPoint world2 profileA1 0)) = 1799 / 20"
    by (simp add: generateHistoricalDataPoint_def historicalStandbyPoint_def Let_def
        Math_random_def world2_def world0_def profileA1_def)
  have a: "altitude (fst (generateHistoricalDataPoint world3 profileA1 0)) = 664 / 5"
    by (simp add: generateHistoricalDataPoint_def historicalActivePoint_def Let_def
        Math_random_def world3_def world0_def profileA1_def)
  have nb: "\<not> rounded_to 1 (1799 / 20)"
    by (simp add: rounded_to_def)
  have na: "\<not> rounded_to 0 (664 / 5)"
    by (simp add: rounded_to_def)
  have nb': "\<not> rounded_to 1 (battery (fst (generateHistoricalDataPoint world2 profileA1 0)))"
    unfolding b by (rule nb)
  have na': "\<not> rounded_to 0 (altitude (fst (generateHistoricalDataPoint world3 profileA1 0)))"
    unfolding a by (rule na)
  from nb' have rb: "\<not> rounded_record (fst (generateHistoricalDataPoint world2 profileA1 0))"
    unfolding rounded_record_def by blast
  from na' have ra: "\<not> rounded_record (fst (generateHistoricalDataPoint world3 profileA1 0))"
    unfolding rounded_record_def by blast
  from b a nb' na' rb ra show ?thesis
    by blast
qed

section \<open>The tick\<close>

lemma Math_random_frame [simp]:
  "collection (snd (Math_random w)) = collection w"
  "clock (snd (Math_random w)) = clock w"
  "dbUp (snd (Math_random w)) = dbUp w"
  by (simp_all add: Math_random_def)

lemma new_Date_frame [simp]:
  "collection (snd (new_Date w)) = collection w"
  "dbUp (snd (new_Date w)) = dbUp w"
  by (simp_all add: new_Date_def)

lemma isDroneUnderManualOverride_frame [simp]:
  "collection (fst (snd (isDroneUnderManualOverride w reg k))) = collection w"
  "dbUp (fst (snd (isDroneUnderManualOverride w reg k))) = dbUp w"
  by (simp_all add: isDroneUnderManualOverride_def new_Date_def Let_def
      split: option.splits prod.splits)

lemma updateDroneState_frame [simp]:
  "collection (snd (updateDroneState w p)) = collection w"
  "dbUp (snd (updateDroneState w p)) = dbUp w"
  by (cases "missionPhase p";
      simp add: updateDroneState_def updateDroneState_idle_def updateDroneState_preparing_def
        updateDroneState_flying_def updateDroneState_delivering_def
        updateDroneState_returning_def Math_random_def new_Date_def Let_def
        split: prod.splits option.splits)+

lemma phaseReadings_frame [simp]:
  "collection (snd (phaseReadings w p)) = collection w"
  "dbUp (snd (phaseReadings w p)) = dbUp w"
  by (cases "missionPhase p";
      simp add: phaseReadings_def Math_random_def Let_def split: prod.splits)+

lemma generateCurrentTelemetry_frame [simp]:
  "collection (snd (generateCurrentTelemetry w p ts)) = collection w"
  "dbUp (snd (generateCurrentTelemetry w p ts)) = dbUp w"
  by (simp_all add: generateCurrentTelemetry_def Let_def case_prod_beta)

text \<open>What the loop returns, component by component.\<close>

lemma telemetry_forOf_frame:
  "telemetry_forOf w reg now ps = (ps', out, w', reg') \<Longrightarrow>
   collection w' = collection w \<and> dbUp w' = dbUp w"
proof (induction ps arbitrary: w reg ps' out w' reg')
  case Nil
  then show ?case by simp
next
  case (Cons kp ps)
  obtain k p where kp: "kp = (k, p)" by (cases kp)
  obtain b w1 reg1 where c: "isDroneUnderManualOverride w reg k = (b, w1, reg1)"
    by (cases "isDroneUnderManualOverride w reg k")
  have f1: "collection w1 = collection w \<and> dbUp w1 = dbUp w"
    using isDroneUnderManualOverride_frame [of w reg k] c by simp
  show ?case
  proof (cases b)
    case True
    obtain r o' w2 reg2 where rest: "telemetry_forOf w1 reg1 now ps = (r, o', w2, reg2)"
      by (cases "telemetry_forOf w1 reg1 now ps")
    with Cons.prems kp c True have "w' = w2" by simp
    with Cons.IH [OF rest] f1 show ?thesis by simp
  next
    case False
    let ?w3 = "snd (generateCurrentTelemetry (snd (updateDroneState w1 p))
        (fst (updateDroneState w1 p)) now)"
    obtain r o' w2 reg2 where rest: "telemetry_forOf ?w3 reg1 now ps = (r, o', w2, reg2)"
      by (cases "telemetry_forOf ?w3 reg1 now ps")
    with Cons.prems kp c False have "w' = w2"
      by (simp add: Let_def case_prod_beta)
    with Cons.IH [OF rest] f1 show ?thesis by simp
  qed
qed

lemma telemetry_forOf_ids:
  "telemetry_forOf w reg now ps = (ps', out, w', reg') \<Longrightarrow>
   map fst ps' = map fst ps \<and>
   map (id_p \<circ> snd) ps' = map (id_p \<circ> snd) ps \<and>
   set (map droneId out) \<subseteq> set (map (id_p \<circ> snd) ps)"
proof (induction ps arbitrary: w reg ps' out w' reg')
  case Nil
  then show ?case by simp
next
  case (Cons kp ps)
  obtain k p where kp: "kp = (k, p)" by (cases kp)
  obtain b w1 reg1 where c: "isDroneUnderManualOverride w reg k = (b, w1, reg1)"
    by (cases "isDroneUnderManualOverride w reg k")
  show ?case
  proof (cases b)
    case True
    obtain r o' w2 reg2 where rest: "telemetry_forOf w1 reg1 now ps = (r, o', w2, reg2)"
      by (cases "telemetry_forOf w1 reg1 now ps")
    with Cons.prems kp c True have "ps' = (k, p) # r" and "out = o'" by simp_all
    with Cons.IH [OF rest] kp show ?thesis by auto
  next
    case False
    let ?p' = "fst (updateDroneState w1 p)"
    let ?d = "fst (generateCurrentTelemetry (snd (updateDroneState w1 p)) ?p' now)"
    let ?w3 = "snd (generateCurrentTelemetry (snd (updateDroneState w1 p)) ?p' now)"
    obtain r o' w2 reg2 where rest: "telemetry_forOf ?w3 reg1 now ps = (r, o', w2, reg2)"
      by (cases "telemetry_forOf ?w3 reg1 now ps")
    with Cons.prems kp c False have "ps' = (k, ?p') # r" and "out = ?d # o'"
      by (simp_all add: Let_def case_prod_beta)
    moreover have "id_p ?p' = id_p p"
      by (simp add: updateDroneState_static)
    moreover have "droneId ?d = id_p p"
      by (simp add: generateCurrentTelemetry_fields updateDroneState_static)
    ultimately show ?thesis
      using Cons.IH [OF rest] kp by auto
  qed
qed

lemma telemetry_forOf_append:
  "telemetry_forOf w reg now (pre @ post) =
     (case telemetry_forOf w reg now pre of
        (pre', out1, w1, reg1) \<Rightarrow>
          (case telemetry_forOf w1 reg1 now post of
             (post', out2, w2, reg2) \<Rightarrow> (pre' @ post', out1 @ out2, w2, reg2)))"
proof (induction pre arbitrary: w reg)
  case Nil
  then show ?case by (simp split: prod.splits)
next
  case (Cons kp pre)
  obtain k p where kp: "kp = (k, p)" by (cases kp)
  obtain b w1 reg1 where c: "isDroneUnderManualOverride w reg k = (b, w1, reg1)"
    by (cases "isDroneUnderManualOverride w reg k")
  show ?case
    by (cases b) (simp_all add: kp c Cons.IH Let_def case_prod_beta split: prod.splits)
qed

lemma profiles_ok_ids: "profiles_ok ps \<Longrightarrow> map (id_p \<circ> snd) ps = map fst ps"
  by (induction ps) (auto simp: profiles_ok_def)

lemma generateAndSaveTelemetry_result:
  assumes "telemetry_forOf (snd (new_Date w)) (droneStates sim) (clock w 0) (profiles sim) =
      (ps', out, w', reg')"
  shows "profiles (fst (generateAndSaveTelemetry w sim)) = ps' \<and>
         set (drop (length (collection w)) (collection (snd (generateAndSaveTelemetry w sim))))
           \<subseteq> {out}"
proof -
  from telemetry_forOf_frame [OF assms] have c: "collection w' = collection w"
    by simp
  have "collection (snd (insertMany w' out)) = collection w \<or>
      collection (snd (insertMany w' out)) = collection w @ [out]"
    by (simp add: insertMany_def db_call_def Let_def c)
  then show ?thesis
    using assms c
    by (cases "insertMany w' out")
      (auto simp add: generateAndSaveTelemetry_def new_Date_def Let_def
        split: sum.splits)
qed

text \<open>
  C1. The profiles of the simulator are \<open>pre @ (k, p) # post\<close>, keyed by their own
  identifiers. If, in the state in which the tick's loop has gone through \<open>pre\<close>, the
  override check reports drone \<open>k\<close> as overridden, then after the tick the profile of
  \<open>k\<close> is \<open>p\<close>, every field as it was, at the same place in the map, and no record
  of a batch the tick appended to the collection has \<open>k\<close> as its \<open>droneId\<close>.
\<close>

theorem overridden_drone_skipped:
  assumes ok: "profiles_ok (profiles sim)"
    and split: "profiles sim = pre @ (k, p) # post"
    and start: "telemetry_forOf (snd (new_Date w)) (droneStates sim) (clock w 0) pre =
                  (pre', out1, w1, reg1)"
    and ov: "fst (isDroneUnderManualOverride w1 reg1 k)"
  shows "profiles (fst (generateAndSaveTelemetry w sim)) ! length pre = (k, p) \<and>
         map_of (profiles (fst (generateAndSaveTelemetry w sim))) k = Some p \<and>
         (\<forall>batch \<in> set (drop (length (collection w))
                           (collection (snd (generateAndSaveTelemetry w sim)))).
            \<forall>t \<in> set batch. droneId t \<noteq> k)"
proof -
  let ?now = "clock w 0"
  obtain w2 reg2 where chk: "isDroneUnderManualOverride w1 reg1 k = (True, w2, reg2)"
    using ov by (cases "isDroneUnderManualOverride w1 reg1 k") simp
  obtain post' out2 w3 reg3
    where rest: "telemetry_forOf w2 reg2 ?now post = (post', out2, w3, reg3)"
    by (cases "telemetry_forOf w2 reg2 ?now post")
  have here: "telemetry_forOf w1 reg1 ?now ((k, p) # post) = ((k, p) # post', out2, w3, reg3)"
    by (simp add: chk rest)
  have whole: "telemetry_forOf (snd (new_Date w)) (droneStates sim) ?now (profiles sim) =
      (pre' @ (k, p) # post', out1 @ out2, w3, reg3)"
    by (simp only: split telemetry_forOf_append start here prod.case)
  note res = generateAndSaveTelemetry_result [OF whole]
  from ok split have ids: "map (id_p \<circ> snd) pre = map fst pre"
      "map (id_p \<circ> snd) post = map fst post"
    using profiles_ok_ids [of "profiles sim"] by simp_all
  from ok split have fresh: "k \<notin> set (map fst pre)" "k \<notin> set (map fst post)"
    by (simp_all add: profiles_ok_def)
  from telemetry_forOf_ids [OF start] ids
  have pre: "map fst pre' = map fst pre" "set (map droneId out1) \<subseteq> set (map fst pre)"
    by simp_all
  from telemetry_forOf_ids [OF rest] ids
  have post: "set (map droneId out2) \<subseteq> set (map fst post)"
    by simp
  from pre(1) have len: "length pre' = length pre"
    by (rule map_eq_imp_length_eq)
  have nth: "(pre' @ (k, p) # post') ! length pre = (k, p)"
    using len by (simp add: nth_append)
  from pre(1) fresh(1) have "k \<notin> fst ` set pre'"
    by (metis set_map)
  then have "map_of pre' k = None"
    by (simp add: map_of_eq_None_iff)
  then have look: "map_of (pre' @ (k, p) # post') k = Some p"
    by (simp add: map_add_def)
  have none: "\<forall>t \<in> set (out1 @ out2). droneId t \<noteq> k"
    using pre(2) post fresh by auto
  from res have prof: "profiles (fst (generateAndSaveTelemetry w sim)) = pre' @ (k, p) # post'"
    by simp
  have batches: "batch = out1 @ out2"
    if "batch \<in> set (drop (length (collection w))
      (collection (snd (generateAndSaveTelemetry w sim))))" for batch
    using res that by auto
  have recs: "\<forall>batch \<in> set (drop (length (collection w))
      (collection (snd (generateAndSaveTelemetry w sim)))). \<forall>t \<in> set batch. droneId t \<noteq> k"
  proof (intro ballI)
    fix batch t
    assume "batch \<in> set (drop (length (collection w))
      (collection (snd (generateAndSaveTelemetry w sim))))" and "t \<in> set batch"
    with batches have "t \<in> set (out1 @ out2)" by simp
    with none show "droneId t \<noteq> k" by (rule bspec)
  qed
  from nth look recs show ?thesis
    by (simp only: prof simp_thms)
qed

lemma initializeProfiles_ok: "profiles_ok (fst (initializeProfiles w))"
  by (simp add: initializeProfiles_def initialProfiles_def profiles_ok_def Let_def
      Math_random_def split: prod.splits)

lemma generateAndSaveTelemetry_ok:
  assumes "profiles_ok (profiles sim)"
  shows "profiles_ok (profiles (fst (generateAndSaveTelemetry w sim)))"
proof -
  obtain ps' out w' reg'
    where run: "telemetry_forOf (snd (new_Date w)) (droneStates sim) (clock w 0) (profiles sim)
      = (ps', out, w', reg')"
    by (cases "telemetry_forOf (snd (new_Date w)) (droneStates sim) (clock w 0) (profiles sim)")
  from telemetry_forOf_ids [OF run] profiles_ok_ids [OF assms]
  have keys: "map fst ps' = map fst (profiles sim)" and ids: "map (id_p \<circ> snd) ps' = map fst ps'"
    by simp_all
  from ids have "list_all (\<lambda>(k, p). id_p p = k) ps'"
    by (induction ps') auto
  with keys assms have "profiles_ok ps'"
    by (simp add: profiles_ok_def)
  with generateAndSaveTelemetry_result [OF run] show ?thesis
    by simp
qed

theorem overridden_drone_skipped_witness:
  "profiles (fst (generateAndSaveTelemetry world0 sim0)) ! 0 =
     (''A1'', newProfile (''A1'', ''Drone A1'', \<lparr>lat = -1.2921, lng = 36.8219\<rparr>, 0.8, 65, 150)
        (1 / 20)) \<and>
   map_of (profiles (fst (generateAndSaveTelemetry world0 sim0))) ''A1'' =
     Some (newProfile (''A1'', ''Drone A1'', \<lparr>lat = -1.2921, lng = 36.8219\<rparr>, 0.8, 65, 150)
        (1 / 20)) \<and>
   ''A1'' \<notin> set (map droneId (concat (drop (length (collection world0))
      (collection (snd (generateAndSaveTelemetry world0 sim0))))))"
proof -
  let ?p = "newProfile (''A1'', ''Drone A1'', \<lparr>lat = -1.2921, lng = 36.8219\<rparr>, 0.8, 65, 150)
        (1 / 20)"
  let ?post = "tl (profiles sim0)"
  have ok: "profiles_ok (profiles sim0)"
    by (simp add: sim0_def initializeProfiles_ok)
  have split: "profiles sim0 = [] @ (''A1'', ?p) # ?post"
    by (simp add: sim0_def initializeProfiles_def initialProfiles_def Let_def
        Math_random_def world0_def)
  have start: "telemetry_forOf (snd (new_Date world0)) (droneStates sim0) (clock world0 0) [] =
      ([], [], snd (new_Date world0), droneStates sim0)"
    by simp
  have ov: "fst (isDroneUnderManualOverride (snd (new_Date world0)) (droneStates sim0) ''A1'')"
    by (simp add: isDroneUnderManualOverride_def new_Date_def sim0_def entry0_def world0_def)
  note skipped = overridden_drone_skipped [OF ok split start ov]
  let ?new = "drop (length (collection world0))
      (collection (snd (generateAndSaveTelemetry world0 sim0)))"
  have "''A1'' \<notin> set (map droneId (concat ?new))"
  proof
    assume "''A1'' \<in> set (map droneId (concat ?new))"
    then obtain batch t where "batch \<in> set ?new" and "t \<in> set batch"
      and "droneId t = ''A1''"
      by auto
    with skipped [THEN conjunct2, THEN conjunct2] show False
      by blast
  qed
  with skipped [THEN conjunct1] skipped [THEN conjunct2, THEN conjunct1] show ?thesis
    by simp
qed

section \<open>The backfill\<close>

declare historical_for.simps [simp del]
declare insert_batches.simps [simp del]

lemma generateHistoricalDataPoint_frame [simp]:
  "collection (snd (generateHistoricalDataPoint w p ts)) = collection w"
  "dbUp (snd (generateHistoricalDataPoint w p ts)) = dbUp w"
  "timestamp (fst (generateHistoricalDataPoint w p ts)) = ts"
  "droneId (fst (generateHistoricalDataPoint w p ts)) = id_p p"
  by (simp_all add: generateHistoricalDataPoint_def historicalActivePoint_def
      historicalStandbyPoint_def Let_def case_prod_beta)

lemma historical_forEach_shape:
  "collection (snd (historical_forEach w ps ts)) = collection w \<and>
   dbUp (snd (historical_forEach w ps ts)) = dbUp w \<and>
   map (\<lambda>t. (timestamp t, droneId t)) (fst (historical_forEach w ps ts)) =
     map (\<lambda>p. (ts, id_p p)) ps"
  by (induction ps arbitrary: w) (simp_all add: Let_def case_prod_beta)

lemma new_Date_of_int [simp]: "new_Date_of (real_of_int z) = z"
  by (simp add: new_Date_of_def)

lemma historical_for_stop: "i < 0 \<Longrightarrow> historical_for w ps now i batchData = (batchData, w)"
  by (simp add: historical_for.simps)

lemma historical_for_step:
  "historical_for w ps now (real j) batchData =
     historical_for (snd (historical_forEach w ps (now - int j * 180000))) ps now (real j - 1)
       (batchData @ fst (historical_forEach w ps (now - int j * 180000)))"
proof -
  have "real_of_int now - real j * 3 * 60000 = real_of_int (now - int j * 180000)"
    by simp
  then have "new_Date_of (real_of_int now - real j * 3 * 60000) = now - int j * 180000"
    by (simp only: new_Date_of_int)
  then show ?thesis
    by (subst historical_for.simps) (simp add: Let_def case_prod_beta)
qed

lemma historical_for_shape:
  "collection (snd (historical_for w ps now (real j) batchData)) = collection w \<and>
   dbUp (snd (historical_for w ps now (real j) batchData)) = dbUp w \<and>
   map (\<lambda>t. (timestamp t, droneId t)) (fst (historical_for w ps now (real j) batchData)) =
     map (\<lambda>t. (timestamp t, droneId t)) batchData @
     concat (map (\<lambda>i. map (\<lambda>p. (now - int i * 180000, id_p p)) ps) (rev [0..<Suc j]))"
proof (induction j arbitrary: w batchData)
  case 0
  show ?case
    using historical_forEach_shape [of w ps now]
    by (simp add: historical_for_step [of w ps now 0, simplified] historical_for_stop)
next
  case (Suc j)
  have "real (Suc j) - 1 = real j" by simp
  then show ?case
    using historical_forEach_shape [of w ps "now - int (Suc j) * 180000"]
      Suc.IH [of "snd (historical_forEach w ps (now - int (Suc j) * 180000))"
        "batchData @ fst (historical_forEach w ps (now - int (Suc j) * 180000))"]
    by (simp only: historical_for_step [of w ps now "Suc j"]) simp
qed

lemma insertMany_up:
  "dbUp w 0 \<Longrightarrow>
   insertMany w batch = (Inr (), (snd (db_call w))\<lparr>collection := collection w @ [batch]\<rparr>)"
  by (simp add: insertMany_def db_call_def)

lemma insert_batches_shape:
  "\<forall>n. dbUp w n \<Longrightarrow>
   \<exists>chunks. insert_batches w batchData i =
       (Inr (), (snd (insert_batches w batchData i))) \<and>
     collection (snd (insert_batches w batchData i)) = collection w @ chunks \<and>
     concat chunks = drop i batchData \<and>
     (\<forall>c \<in> set chunks. c \<noteq> [] \<and> length c \<le> 100)"
proof (induction w batchData i rule: insert_batches.induct)
  case (1 w batchData i)
  show ?case
  proof (cases "i < length batchData")
    case False
    then show ?thesis
      by (subst (1 2 3) insert_batches.simps) simp
  next
    case True
    let ?c = "take 100 (drop i batchData)"
    let ?w = "(snd (db_call w))\<lparr>collection := collection w @ [?c]\<rparr>"
    from "1.prems" have up: "dbUp w 0" and up': "\<forall>n. dbUp ?w n"
      by (simp_all add: db_call_def)
    have ins: "insertMany w ?c = (Inr (), ?w)"
      using up by (rule insertMany_up)
    have unfold: "insert_batches w batchData i = insert_batches ?w batchData (i + 100)"
      using True by (subst insert_batches.simps) (simp add: ins)
    from "1.IH" [OF refl True ins [symmetric] refl up']
    obtain chunks where
      a: "insert_batches ?w batchData (i + 100) =
          (Inr (), snd (insert_batches ?w batchData (i + 100)))"
      and b: "collection (snd (insert_batches ?w batchData (i + 100))) = collection ?w @ chunks"
      and c: "concat chunks = drop (i + 100) batchData"
      and d: "\<forall>c \<in> set chunks. c \<noteq> [] \<and> length c \<le> 100"
      by blast
    have cat: "concat (?c # chunks) = drop i batchData"
      using c by (simp add: add.commute [of i 100] drop_drop [symmetric] del: drop_drop)
    have ne: "?c \<noteq> []" using True by simp
    show ?thesis
      apply (rule exI [of _ "?c # chunks"])
      using a b cat d ne unfolding unfold by simp
  qed
qed

lemma generateHistoricalData_shape:
  assumes "\<forall>i. dbUp w i"
  shows "\<exists>chunks.
     fst (generateHistoricalData w sim (real n)) = Inr () \<and>
     collection (snd (generateHistoricalData w sim (real n))) = collection w @ chunks \<and>
     (\<forall>c \<in> set chunks. c \<noteq> [] \<and> length c \<le> 100) \<and>
     map (\<lambda>t. (timestamp t, droneId t)) (concat chunks) =
       concat (map (\<lambda>i. map (\<lambda>(k, p). (clock w 0 - int i * (3 * 60000), id_p p)) (profiles sim))
                 (rev [0..<n * 60 div 3 + 1]))"
proof -
  let ?w1 = "snd (new_Date w)"
  let ?now = "clock w 0"
  let ?ps = "map snd (profiles sim)"
  let ?run = "historical_for ?w1 ?ps ?now (real (20 * n)) []"
  have total: "real n * 60 / 3 = real (20 * n)" by simp
  have gen: "generateHistoricalData w sim (real n) = insert_batches (snd ?run) (fst ?run) 0"
    by (simp only: generateHistoricalData_def Let_def new_Date_def case_prod_beta total
        fst_conv snd_conv)
  note shape = historical_for_shape [of ?w1 ?ps ?now "20 * n" "[]"]
  from shape assms have up: "\<forall>i. dbUp (snd ?run) i" by simp
  from insert_batches_shape [OF up, of "fst ?run" 0]
  obtain chunks where
    a: "insert_batches (snd ?run) (fst ?run) 0 =
        (Inr (), snd (insert_batches (snd ?run) (fst ?run) 0))"
    and b: "collection (snd (insert_batches (snd ?run) (fst ?run) 0)) =
        collection (snd ?run) @ chunks"
    and c: "concat chunks = drop 0 (fst ?run)"
    and d: "\<forall>c \<in> set chunks. c \<noteq> [] \<and> length c \<le> 100"
    by blast
  have keys: "map (\<lambda>t. (timestamp t, droneId t)) (concat chunks) =
      concat (map (\<lambda>i. map (\<lambda>(k, p). (?now - int i * (3 * 60000), id_p p)) (profiles sim))
                (rev [0..<n * 60 div 3 + 1]))"
    using shape c by (simp add: comp_def case_prod_unfold)
  have coll: "collection (snd (generateHistoricalData w sim (real n))) = collection w @ chunks"
    using b shape by (simp add: gen)
  have res: "fst (generateHistoricalData w sim (real n)) = Inr ()"
    using arg_cong [OF a, of fst] by (simp add: gen)
  from res coll d keys show ?thesis by blast
qed

lemma initializeDatabase_empty:
  assumes "dbUp w 0" and "concat (collection w) = []"
  shows "initializeDatabase w sim = snd (generateHistoricalData (snd (db_call w)) sim 6)"
  using assms by (simp add: initializeDatabase_def countDocuments_def db_call_def)

text \<open>
  C9. When every call of the persistence layer succeeds, \<^verbatim>\<open>generateHistoricalData\<close> for
  a whole number \<open>n\<close> of hours ends without an exception and appends to the collection
  batches of at most 100 records each, none empty, which laid end to end are: for each
  \<open>i\<close> from \<open>n * 60 / 3\<close> down to \<open>0\<close>, so for \<open>n * 60 / 3 + 1\<close> timestamps, the last of
  them the clock reading the function took, one record per profile, in the order of the
  profile map, with the timestamp that reading less \<open>i\<close> times 3 minutes and the
  profile's id as \<open>droneId\<close>. When the collection holds no record,
  \<^verbatim>\<open>initializeDatabase\<close> runs exactly this backfill, for 6 hours.
\<close>

theorem backfill_shape:
  assumes "\<forall>i. dbUp w i"
  shows "(\<exists>chunks.
     fst (generateHistoricalData w sim (real n)) = Inr () \<and>
     collection (snd (generateHistoricalData w sim (real n))) = collection w @ chunks \<and>
     (\<forall>c \<in> set chunks. c \<noteq> [] \<and> length c \<le> 100) \<and>
     map (\<lambda>t. (timestamp t, droneId t)) (concat chunks) =
       concat (map (\<lambda>i. map (\<lambda>(k, p). (clock w 0 - int i * (3 * 60000), id_p p)) (profiles sim))
                 (rev [0..<n * 60 div 3 + 1]))) \<and>
   length (rev [0..<n * 60 div 3 + 1]) = n * 60 div 3 + 1 \<and>
   (concat (collection w) = [] \<longrightarrow>
      initializeDatabase w sim = snd (generateHistoricalData (snd (db_call w)) sim 6))"
proof -
  from assms have "dbUp w 0" by simp
  then have "concat (collection w) = [] \<longrightarrow>
      initializeDatabase w sim = snd (generateHistoricalData (snd (db_call w)) sim 6)"
    by (simp add: initializeDatabase_empty)
  with generateHistoricalData_shape [OF assms, of sim n] show ?thesis
    by simp
qed

theorem backfill_shape_witness:
  "(\<exists>chunks.
     fst (generateHistoricalData world0 sim0 6) = Inr () \<and>
     collection (snd (generateHistoricalData world0 sim0 6)) = chunks \<and>
     (\<forall>c \<in> set chunks. c \<noteq> [] \<and> length c \<le> 100) \<and>
     map (\<lambda>t. (timestamp t, droneId t)) (concat chunks) =
       concat (map (\<lambda>i. map (\<lambda>(k, p). (2000 - int i * 180000, id_p p)) (profiles sim0))
                 (rev [0..<121]))) \<and>
   initializeDatabase world0 sim0 = snd (generateHistoricalData (snd (db_call world0)) sim0 6)"
proof -
  have up: "\<forall>i. dbUp world0 i"
    by (simp add: world0_def)
  have empty: "collection world0 = []" and now: "clock world0 0 = 2000"
    by (simp_all add: world0_def)
  from backfill_shape [OF up, of sim0 6] show ?thesis
    by (simp add: empty now)
qed

section \<open>The admin route: the default duration\<close>

lemma overrideDuration_falsy: "\<not> truthy d \<Longrightarrow> overrideDuration d = JNum 300000"
  by (simp add: overrideDuration_def)

lemma POST_override_registry:
  assumes "dbUp w 0" and "dbUp w (Suc 0)"
  shows "\<exists>e. snd (snd (POST_override w reg k st body expiry)) k = Some e \<and>
             manualOverride e \<and> overrideExpiry e = Some expiry"
  using assms
  by (cases expiry)
    (simp_all add: POST_override_def db_call_def Let_def case_prod_beta)

text \<open>
  C10. A POST request whose \<^verbatim>\<open>duration\<close> is falsy (0, the empty string, false, null)
  is handled exactly as the same request with no \<^verbatim>\<open>duration\<close>: response, world and
  registry are the same. When the request names a drone and a status and the two
  persistence calls before the write succeed, the registry entry of the drone has the
  override flag set and the expiry at the clock reading plus 5 minutes.
\<close>

theorem falsy_duration_is_default:
  assumes "\<not> truthy d"
  shows "POST w reg (body\<lparr>duration := d\<rparr>) = POST w reg (body\<lparr>duration := JAbsent\<rparr>) \<and>
         (droneId_b body = Some k \<and> k \<noteq> [] \<and> status_b body = Some st \<and> st \<noteq> [] \<and>
          dbUp w 0 \<and> dbUp w (Suc 0) \<longrightarrow>
            (\<exists>e. snd (snd (POST w reg (body\<lparr>duration := d\<rparr>))) k = Some e \<and>
                 manualOverride e \<and>
                 overrideExpiry e = Some (DateValue (clock w 0 + 5 * 60 * 1000))))"
proof -
  have dur: "overrideDuration d = JNum 300000" "overrideDuration JAbsent = JNum 300000"
    using assms by (simp_all add: overrideDuration_falsy)
  have same_override: "POST_override w' reg k' st' (body\<lparr>duration := x\<rparr>) e =
      POST_override w' reg k' st' (body\<lparr>duration := y\<rparr>) e" for w' k' st' x y e
    by (simp add: POST_override_def Let_def case_prod_beta)
  have same: "POST w reg (body\<lparr>duration := d\<rparr>) = POST w reg (body\<lparr>duration := JAbsent\<rparr>)"
    by (simp add: POST_def dur same_override [of _ _ _ d _ JAbsent]
        split: option.splits prod.splits)
  have entry: "\<exists>e. snd (snd (POST w reg (body\<lparr>duration := d\<rparr>))) k = Some e \<and>
      manualOverride e \<and> overrideExpiry e = Some (DateValue (clock w 0 + 5 * 60 * 1000))"
    if b: "droneId_b body = Some k" "k \<noteq> []" "status_b body = Some st" "st \<noteq> []"
      and up: "dbUp w 0" "dbUp w (Suc 0)"
  proof -
    have nd: "new_Date_of (real_of_int (clock w 0) + 300000) = clock w 0 + 300000"
      using new_Date_of_int [of "clock w 0 + 300000"] by simp
    have "POST w reg (body\<lparr>duration := d\<rparr>) =
        POST_override (snd (new_Date w)) reg k st (body\<lparr>duration := d\<rparr>)
          (DateValue (clock w 0 + 300000))"
      using b by (simp add: POST_def dur new_Date_def nd)
    moreover have "dbUp (snd (new_Date w)) 0" "dbUp (snd (new_Date w)) (Suc 0)"
      using up by (simp_all add: new_Date_def)
    ultimately show ?thesis
      using POST_override_registry [of "snd (new_Date w)" reg k st "body\<lparr>duration := d\<rparr>"
          "DateValue (clock w 0 + 300000)"]
      by simp
  qed
  from same entry show ?thesis by blast
qed

theorem falsy_duration_is_default_witness:
  "POST world0 Map.empty body0 = POST world0 Map.empty (body0\<lparr>duration := JAbsent\<rparr>) \<and>
   (\<exists>e. snd (snd (POST world0 Map.empty body0)) ''A1'' = Some e \<and> manualOverride e \<and>
        overrideExpiry e = Some (DateValue 302000))"
proof -
  have f: "\<not> truthy (JNum 0)" by simp
  have b: "body0\<lparr>duration := JNum 0\<rparr> = body0"
    by (simp add: body0_def)
  have c: "clock world0 0 + 5 * 60 * 1000 = 302000"
    by (simp add: world0_def)
  have h: "droneId_b body0 = Some ''A1'' \<and> ''A1'' \<noteq> [] \<and>
      status_b body0 = Some ''Maintenance'' \<and> ''Maintenance'' \<noteq> [] \<and>
      dbUp world0 0 \<and> dbUp world0 (Suc 0)"
    by (simp add: body0_def world0_def)
  note th = falsy_duration_is_default [OF f, of world0 Map.empty body0 "''A1''" "''Maintenance''",
      unfolded b c]
  from th [THEN conjunct1] th [THEN conjunct2, THEN mp, OF h] show ?thesis
    by (rule conjI)
qed

end
